theory Spec2Isabelle
  imports Complex_Main "HOL-Library.Char_ord" "HOL-Library.List_Lexorder"
begin

section \<open>Data model of grab\_app.py\<close>

text \<open>
  A cart line is the dictionary appended by the "Add to Cart" button (lines 209-212 of
  grab\_app.py): restaurant, category, food, price and quantity. An order (lines 276-284)
  carries the same five entries and ten more, so it is modelled as an extension of the
  cart line. Python's \<open>None\<close> is \<open>None\<close> of an option type. Prices and tips are
  Python floats; they are carried as real numbers, that is, the rounding of the float
  operations is not modelled.
\<close>

record cart_line =
  restaurant :: string
  category :: string
  food :: string
  price :: real
  quantity :: int

record order = cart_line +
  customer :: string
  phone :: string
  dropoff :: string
  payment :: string
  tip :: real
  status :: string
  driver :: "string option"
  rating_food :: "int option"
  rating_speed :: "int option"
  rating_service :: "int option"

type_synonym cart = "cart_line list"

text \<open>
  A Python dictionary keeps its keys in insertion order, and the pages iterate over
  \<open>orders.items()\<close>, so the order store is an association list. \<open>d[k] = v\<close>
  replaces the value of an existing key where it stands and appends a new key.
\<close>

type_synonym orders = "(string \<times> order) list"

fun dict_set :: "('k \<times> 'v) list \<Rightarrow> 'k \<Rightarrow> 'v \<Rightarrow> ('k \<times> 'v) list" where
  "dict_set [] k v = [(k, v)]"
| "dict_set ((k', v') # d) k v = (if k' = k then (k, v) # d else (k', v') # dict_set d k v)"

definition dict_get :: "('k \<times> 'v) list \<Rightarrow> 'k \<Rightarrow> 'v option" where
  "dict_get d k = map_of d k"

text \<open>
  The rating summaries of lines 328 and 334-337: a restaurant has a sum and a count, a
  driver has two more sums. \<open>ratings\<close> is the dictionary with the two entries
  \<open>"restaurants"\<close> and \<open>"drivers"\<close> (lines 57-60); these two are only looked up by
  name, so they are maps.
\<close>

record rest_rating =
  rating_sum :: int
  rating_count :: int

record driver_rating = rest_rating +
  speed_sum :: int
  service_sum :: int

record ratings =
  restaurants :: "string \<rightharpoonup> rest_rating"
  drivers :: "string \<rightharpoonup> driver_rating"

record user =
  password :: string
  user_phone :: string
  role :: string

text \<open>
  The exceptions of Python that the modelled code can raise, and the messages a page
  shows with \<open>st.success\<close> and \<open>st.error\<close>.
\<close>

datatype py_error = KeyError | ValueError | UnicodeDecodeError | ZeroDivisionError

datatype notice = St_success string | St_error string

section \<open>Python's str and int on order IDs\<close>

text \<open>
  Order IDs are the keys of \<open>orders\<close>: strings, made by \<open>str(last_id)\<close> (line 275)
  and read back by \<open>int(k)\<close> (line 271). \<open>str\<close> of an integer is its decimal
  numeral, with a minus sign when negative. \<open>int\<close> of a string strips blanks at both
  ends, takes an optional sign, and then wants decimal digits, where single underscores
  may stand between digits; anything else raises ValueError. A character of a string is a
  code point below 256. The blanks that \<open>int\<close> strips are the six ASCII ones (tab,
  line feed, vertical tab, form feed, carriage return, space: 9 to 13 and 32) and the two
  blanks of the range above ASCII, U+0085 and U+00A0; the separators 28 to 31, which
  \<open>str.isspace\<close> takes as blanks, are no blanks for \<open>int\<close>. Below 256 the only
  decimal digits are the ASCII ones. Code points from 256 on cannot be written here, and
  the interpreter's limit on the number of digits is not modelled.
\<close>

definition digit_char :: "nat \<Rightarrow> char" where
  "digit_char d = char_of (48 + d)"

function str_nat :: "nat \<Rightarrow> string" where
  "str_nat n = (if n < 10 then [digit_char n] else str_nat (n div 10) @ [digit_char (n mod 10)])"
  by pat_completeness auto
termination
  by (relation "measure id") auto

declare str_nat.simps [simp del]

definition py_str :: "int \<Rightarrow> string" where
  "py_str i = (if i < 0 then CHR ''-'' # str_nat (nat (- i)) else str_nat (nat i))"

definition is_space :: "char \<Rightarrow> bool" where
  "is_space c = ((of_char c :: nat) \<in> {9, 10, 11, 12, 13, 32, 133, 160})"

definition is_digit :: "char \<Rightarrow> bool" where
  "is_digit c = (48 \<le> (of_char c :: nat) \<and> (of_char c :: nat) \<le> 57)"

definition digit_val :: "char \<Rightarrow> nat" where
  "digit_val c = of_char c - 48"

definition strip :: "string \<Rightarrow> string" where
  "strip s = rev (dropWhile is_space (rev (dropWhile is_space s)))"

fun parse_digits :: "string \<Rightarrow> nat \<Rightarrow> nat option"
  and parse_rest :: "string \<Rightarrow> nat \<Rightarrow> nat option" where
  "parse_digits [] acc = None"
| "parse_digits (c # cs) acc =
     (if is_digit c then parse_rest cs (10 * acc + digit_val c) else None)"
| "parse_rest [] acc = Some acc"
| "parse_rest (c # cs) acc =
     (if c = CHR ''_'' then parse_digits cs acc
      else if is_digit c then parse_rest cs (10 * acc + digit_val c)
      else None)"

definition int_literal :: "string \<Rightarrow> int option" where
  "int_literal s =
     (case strip s of
        [] \<Rightarrow> None
      | c # cs \<Rightarrow>
          if c = CHR ''-'' then map_option (\<lambda>n. - int n) (parse_digits cs 0)
          else if c = CHR ''+'' then map_option int (parse_digits cs 0)
          else map_option int (parse_digits (c # cs) 0))"

definition py_int :: "string \<Rightarrow> py_error + int" where
  "py_int s = (case int_literal s of None \<Rightarrow> Inl ValueError | Some i \<Rightarrow> Inr i)"

text \<open>\<open>[int(k) for k in orders.keys()]\<close>: the first key that is no integer raises.\<close>

fun int_keys :: "string list \<Rightarrow> py_error + int list" where
  "int_keys [] = Inr []"
| "int_keys (k # ks) =
     (case py_int k of
        Inl e \<Rightarrow> Inl e
      | Inr i \<Rightarrow> (case int_keys ks of Inl e \<Rightarrow> Inl e | Inr js \<Rightarrow> Inr (i # js)))"

text \<open>\<open>max\<close> of a list; Python raises ValueError on the empty list.\<close>

fun py_max :: "int list \<Rightarrow> py_error + int" where
  "py_max [] = Inl ValueError"
| "py_max (x # xs) = Inr (fold max xs x)"


section \<open>The cart\<close>

subsection \<open>Add to Cart (lines 201-213)\<close>

text \<open>
  The \<open>for\<close> loop of lines 203-207 walks the cart, adds one to the quantity of the first
  line with the chosen food and restaurant, and breaks. It returns the cart and the flag
  \<open>found\<close>.
\<close>

fun bump_existing :: "cart \<Rightarrow> string \<Rightarrow> string \<Rightarrow> cart \<times> bool" where
  "bump_existing [] fd rs = ([], False)"
| "bump_existing (item # rest) fd rs =
     (if food item = fd \<and> restaurant item = rs
      then (item\<lparr>quantity := quantity item + 1\<rparr> # rest, True)
      else (case bump_existing rest fd rs of (rest', found) \<Rightarrow> (item # rest', found)))"

definition add_to_cart :: "cart \<Rightarrow> string \<Rightarrow> string \<Rightarrow> string \<Rightarrow> real \<Rightarrow> cart" where
  "add_to_cart c rs cat fd pr =
     (case bump_existing c fd rs of
        (c', found) \<Rightarrow>
          if \<not> found
          then c' @ [\<lparr>restaurant = rs, category = cat, food = fd, price = pr, quantity = 1\<rparr>]
          else c')"

text \<open>A sequence of clicks on "Add to Cart", each with the selection made at that moment.\<close>

type_synonym selection = "string \<times> string \<times> string \<times> real"

definition add_selection :: "cart \<Rightarrow> selection \<Rightarrow> cart" where
  "add_selection c s = (case s of (rs, cat, fd, pr) \<Rightarrow> add_to_cart c rs cat fd pr)"

definition add_all :: "cart \<Rightarrow> selection list \<Rightarrow> cart" where
  "add_all c sels = foldl add_selection c sels"

definition line_key :: "cart_line \<Rightarrow> string \<times> string" where
  "line_key l = (restaurant l, food l)"

definition sel_key :: "selection \<Rightarrow> string \<times> string" where
  "sel_key s = (case s of (rs, cat, fd, pr) \<Rightarrow> (rs, fd))"

definition bump_line :: "string \<times> string \<Rightarrow> cart_line \<Rightarrow> cart_line" where
  "bump_line k l = (if line_key l = k then l\<lparr>quantity := quantity l + 1\<rparr> else l)"

definition qty_of :: "cart \<Rightarrow> string \<times> string \<Rightarrow> int" where
  "qty_of c k = sum_list (map quantity (filter (\<lambda>l. line_key l = k) c))"


subsection \<open>The cart view and its totals (lines 217-243)\<close>

text \<open>
  On each run of the script at most one button is down: the one the user clicked.
  The loop of lines 219-239 goes through a copy of the cart. A line whose "-", "+" or
  "Remove" button is down changes the cart and ends the run with \<open>st.rerun()\<close>
  ("-" only when the quantity is above 1); every other line adds price times quantity to
  \<open>subtotal\<close>. The items of the copy are the items of the cart, so \<open>item\<close> is the
  cart's entry at \<open>idx\<close>.
\<close>

datatype cart_click = No_click | Minus nat | Plus nat | Remove nat

datatype 'a run = Rerun cart | Done 'a

fun cart_loop :: "(nat \<times> cart_line) list \<Rightarrow> cart \<Rightarrow> cart_click \<Rightarrow> real \<Rightarrow> real run" where
  "cart_loop [] c click subtotal = Done subtotal"
| "cart_loop ((idx, item) # rest) c click subtotal =
     (if click = Minus idx \<and> quantity item > 1
        then Rerun (c[idx := item\<lparr>quantity := quantity item - 1\<rparr>])
      else if click = Plus idx
        then Rerun (c[idx := item\<lparr>quantity := quantity item + 1\<rparr>])
      else if click = Remove idx
        then Rerun (take idx c @ drop (Suc idx) c)
      else cart_loop rest c click (subtotal + price item * of_int (quantity item)))"

record totals =
  subtotal :: real
  service_tax :: real
  delivery_charge :: real
  total :: real

text \<open>
  Lines 217-243. The page runs them only when the cart is not empty (line 215). When the
  loop ends without a rerun, the cart is the one the loop started with, and it is
  returned beside the totals.
\<close>

definition cart_totals :: "cart \<Rightarrow> cart_click \<Rightarrow> (cart \<times> totals) run" where
  "cart_totals c click =
     (case cart_loop (enumerate 0 c) c click 0 of
        Rerun c' \<Rightarrow> Rerun c'
      | Done sub \<Rightarrow>
          Done (c, \<lparr>subtotal = sub,
                    service_tax = sub * 0.10,
                    delivery_charge = sub * 0.06,
                    total = sub + sub * 0.10 + sub * 0.06\<rparr>))"

section \<open>Checkout (lines 264-290)\<close>

definition new_order :: "string \<Rightarrow> string \<Rightarrow> string \<Rightarrow> string \<Rightarrow> real \<Rightarrow> cart_line \<Rightarrow> order" where
  "new_order username uphone dp pay tp item =
     \<lparr>restaurant = restaurant item, category = category item, food = food item,
      price = price item, quantity = quantity item,
      customer = username, phone = uphone, dropoff = dp, payment = pay, tip = tp,
      status = ''pending'', driver = None,
      rating_food = None, rating_speed = None, rating_service = None\<rparr>"

text \<open>The loop of lines 273-284: one more than the last ID for each line of the cart.\<close>

fun place_lines :: "(cart_line \<Rightarrow> order) \<Rightarrow> cart \<Rightarrow> int \<Rightarrow> orders \<Rightarrow> orders" where
  "place_lines mk [] last_id os = os"
| "place_lines mk (item # rest) last_id os =
     place_lines mk rest (last_id + 1) (dict_set os (py_str (last_id + 1)) (mk item))"

text \<open>
  \<open>max([int(k) for k in orders.keys()] or [0])\<close> (line 271): \<open>or\<close> gives \<open>[0]\<close> when
  the list is empty.
\<close>

definition last_order_id :: "orders \<Rightarrow> py_error + int" where
  "last_order_id os =
     (case int_keys (map fst os) of
        Inl e \<Rightarrow> Inl e
      | Inr ids \<Rightarrow> py_max (if ids = [] then [0] else ids))"

text \<open>
  The "Place Order" button. The result is the order store, the cart and the step of the
  session, and the message shown. An empty dropoff shows an error and changes nothing;
  \<open>users[username]\<close> raises KeyError for a user that is not there.
\<close>

definition place_order ::
  "(string \<rightharpoonup> user) \<Rightarrow> orders \<Rightarrow> cart \<Rightarrow> string \<Rightarrow> string \<Rightarrow> string \<Rightarrow> real
     \<Rightarrow> py_error + (orders \<times> cart \<times> nat \<times> notice)" where
  "place_order users os c username dp pay tp =
     (if dp = [] then Inr (os, c, 2, St_error ''Please enter a dropoff location.'')
      else
        (case users username of
           None \<Rightarrow> Inl KeyError
         | Some u \<Rightarrow>
             (case last_order_id os of
                Inl e \<Rightarrow> Inl e
              | Inr last_id \<Rightarrow>
                  Inr (place_lines (new_order username (user_phone u) dp pay tp) c last_id os,
                       [], 1, St_success ''Order placed successfully!''))))"

section \<open>The customer's orders and their ratings (lines 297-351)\<close>

definition user_orders :: "orders \<Rightarrow> string \<Rightarrow> orders" where
  "user_orders os username = filter (\<lambda>(oid, od). customer od = username) os"

text \<open>
  \<open>sorted(user_orders.items(), key=lambda item: item[0], reverse=True)\<close> (line 304). The
  key is the order ID, a string, and Python compares strings character by character.
  With \<open>reverse=True\<close> Python reverses the list, sorts it stably and reverses the result.
\<close>

definition sorted_reverse :: "orders \<Rightarrow> orders" where
  "sorted_reverse xs = rev (sort_key fst (rev xs))"

definition listed_orders :: "orders \<Rightarrow> string \<Rightarrow> orders" where
  "listed_orders os username = sorted_reverse (user_orders os username)"

text \<open>
  Lines 323-341: what the "Submit Rating" button of the order \<open>oid\<close> does.
  \<open>if o["driver"]:\<close> (line 333) holds for a driver that is a string and not empty.
\<close>

definition rate_restaurant :: "(string \<rightharpoonup> rest_rating) \<Rightarrow> string \<Rightarrow> int \<Rightarrow> (string \<rightharpoonup> rest_rating)" where
  "rate_restaurant rs name rf =
     (let r = (case rs name of None \<Rightarrow> \<lparr>rating_sum = 0, rating_count = 0\<rparr> | Some r \<Rightarrow> r)
      in rs(name \<mapsto> r\<lparr>rating_sum := rating_sum r + rf, rating_count := rating_count r + 1\<rparr>))"

definition rate_driver ::
  "(string \<rightharpoonup> driver_rating) \<Rightarrow> string \<Rightarrow> int \<Rightarrow> int \<Rightarrow> int \<Rightarrow> (string \<rightharpoonup> driver_rating)" where
  "rate_driver ds name rf rsp rsv =
     (let d = (case ds name of
                 None \<Rightarrow> \<lparr>rating_sum = 0, rating_count = 0, speed_sum = 0, service_sum = 0\<rparr>
               | Some d \<Rightarrow> d)
      in ds(name \<mapsto> d\<lparr>rating_sum := rating_sum d + rf, speed_sum := speed_sum d + rsp,
                       service_sum := service_sum d + rsv, rating_count := rating_count d + 1\<rparr>))"

definition submit_rating ::
  "orders \<Rightarrow> ratings \<Rightarrow> string \<Rightarrow> order \<Rightarrow> int \<Rightarrow> int \<Rightarrow> int \<Rightarrow> orders \<times> ratings" where
  "submit_rating os rt oid od rf rsp rsv =
     (dict_set os oid (od\<lparr>rating_food := Some rf, rating_speed := Some rsp, rating_service := Some rsv\<rparr>),
      \<lparr>restaurants = rate_restaurant (restaurants rt) (restaurant od) rf,
       drivers = (case driver od of
                    None \<Rightarrow> drivers rt
                  | Some d \<Rightarrow> if d = [] then drivers rt
                             else rate_driver (drivers rt) d rf rsp rsv)\<rparr>)"

text \<open>
  The loop of lines 304-351 over the customer's orders. A rating form, with its submit
  button, exists only for an order that is completed and has no food rating (line 313).
  \<open>clicked\<close> is the order whose "Submit Rating" button is down, with the three slider
  values; a click on a form that is not drawn does nothing, and nothing is shown for it.
\<close>

fun rating_loop ::
  "(string \<times> order) list \<Rightarrow> orders \<Rightarrow> ratings \<Rightarrow> string \<Rightarrow> int \<Rightarrow> int \<Rightarrow> int
     \<Rightarrow> orders \<times> ratings \<times> notice list" where
  "rating_loop [] os rt clicked rf rsp rsv = (os, rt, [])"
| "rating_loop ((oid, od) # rest) os rt clicked rf rsp rsv =
     (if status od = ''completed'' \<and> rating_food od = None
      then (if clicked = oid
            then (case submit_rating os rt oid od rf rsp rsv of
                    (os', rt') \<Rightarrow> (os', rt', [St_success ''Thank you for your feedback!'']))
            else rating_loop rest os rt clicked rf rsp rsv)
      else rating_loop rest os rt clicked rf rsp rsv)"

definition rate_order ::
  "orders \<Rightarrow> ratings \<Rightarrow> string \<Rightarrow> string \<Rightarrow> int \<Rightarrow> int \<Rightarrow> int \<Rightarrow> orders \<times> ratings \<times> notice list" where
  "rate_order os rt username clicked rf rsp rsv =
     rating_loop (listed_orders os username) os rt clicked rf rsp rsv"

section \<open>The driver page (lines 355-401)\<close>

definition driver_orders :: "orders \<Rightarrow> string \<Rightarrow> orders" where
  "driver_orders os username =
     filter (\<lambda>(oid, od). driver od = Some username \<and> status od = ''claimed'') os"

definition pending_orders :: "orders \<Rightarrow> orders" where
  "pending_orders os = filter (\<lambda>(oid, od). status od = ''pending'') os"

datatype driver_click = Nothing | Deliver string | Claim string

text \<open>
  Lines 373-380 and 391-400. A button exists only for an order in the list the loop goes
  through; the button that is down changes the store, shows its message and ends the run.
  \<open>None\<close> means that the loop ended with no button down.
\<close>

fun deliver_loop :: "(string \<times> order) list \<Rightarrow> orders \<Rightarrow> driver_click \<Rightarrow> (orders \<times> notice list) option" where
  "deliver_loop [] os click = None"
| "deliver_loop ((oid, od) # rest) os click =
     (if click = Deliver oid
      then Some (dict_set os oid (od\<lparr>status := ''completed''\<rparr>),
                 [St_success (''Order '' @ oid @ '' marked as completed!'')])
      else deliver_loop rest os click)"

fun claim_loop :: "(string \<times> order) list \<Rightarrow> orders \<Rightarrow> string \<Rightarrow> driver_click \<Rightarrow> (orders \<times> notice list) option" where
  "claim_loop [] os username click = None"
| "claim_loop ((oid, od) # rest) os username click =
     (if click = Claim oid
      then Some (dict_set os oid (od\<lparr>driver := Some username, status := ''claimed''\<rparr>),
                 [St_success (''Order '' @ oid @ '' claimed! It has been moved to 'Your Claimed Orders'.'')])
      else claim_loop rest os username click)"

definition driver_page :: "orders \<Rightarrow> string \<Rightarrow> driver_click \<Rightarrow> orders \<times> notice list" where
  "driver_page os username click =
     (case deliver_loop (driver_orders os username) os click of
        Some r \<Rightarrow> r
      | None \<Rightarrow>
          (case claim_loop (pending_orders os) os username click of
             Some r \<Rightarrow> r
           | None \<Rightarrow> (os, [])))"

section \<open>Average ratings (lines 191-194 and 359-364)\<close>

text \<open>
  \<open>/\<close> on two integers raises ZeroDivisionError when the divisor is 0. Its result is a
  float, the nearest one to the quotient; the model keeps the quotient itself.
  A summary that was looked up is a dictionary with entries, so it counts as true in
  \<open>if r_rating and ...\<close>; \<open>None\<close> counts as false.
\<close>

definition py_truediv :: "int \<Rightarrow> int \<Rightarrow> py_error + real" where
  "py_truediv a b = (if b = 0 then Inl ZeroDivisionError else Inr (of_int a / of_int b))"

definition restaurant_average :: "ratings \<Rightarrow> string \<Rightarrow> py_error + real option" where
  "restaurant_average rt name =
     (case restaurants rt name of
        None \<Rightarrow> Inr None
      | Some r \<Rightarrow>
          if rating_count r > 0
          then (case py_truediv (rating_sum r) (rating_count r) of
                  Inl e \<Rightarrow> Inl e
                | Inr avg \<Rightarrow> Inr (Some avg))
          else Inr None)"

definition driver_averages :: "ratings \<Rightarrow> string \<Rightarrow> py_error + (real \<times> real \<times> real) option" where
  "driver_averages rt name =
     (case drivers rt name of
        None \<Rightarrow> Inr None
      | Some d \<Rightarrow>
          if rating_count d > 0
          then (case py_truediv (rating_sum d) (rating_count d) of
                  Inl e \<Rightarrow> Inl e
                | Inr avg_food \<Rightarrow>
                    (case py_truediv (speed_sum d) (rating_count d) of
                       Inl e \<Rightarrow> Inl e
                     | Inr avg_speed \<Rightarrow>
                         (case py_truediv (service_sum d) (rating_count d) of
                            Inl e \<Rightarrow> Inl e
                          | Inr avg_service \<Rightarrow> Inr (Some (avg_food, avg_speed, avg_service)))))
          else Inr None)"

section \<open>Loading a store from its file (lines 30-37)\<close>

text \<open>
  A file is a sequence of bytes. \<open>open(file, "r")\<close> reads it as text: \<open>f.read()\<close>,
  which \<open>json.load\<close> calls, decodes the bytes, here as UTF-8 (Python's encoding where
  the locale or the UTF-8 mode says so), and raises UnicodeDecodeError on bytes that are
  no UTF-8. The decoder takes one code point at a time: one byte below 128, or a lead
  byte and one to three continuation bytes, with the shortest form only, no surrogates
  and nothing above U+10FFFF.
\<close>

definition is_cont :: "nat \<Rightarrow> bool" where
  "is_cont b = (128 \<le> b \<and> b \<le> 191)"

definition utf8_char :: "nat list \<Rightarrow> (nat \<times> nat list) option" where
  "utf8_char bs =
     (case bs of
        [] \<Rightarrow> None
      | b0 # r0 \<Rightarrow>
          if b0 < 128 then Some (b0, r0)
          else if 194 \<le> b0 \<and> b0 \<le> 223 then
            (case r0 of
               b1 # r1 \<Rightarrow>
                 if is_cont b1 then Some ((b0 - 192) * 64 + (b1 - 128), r1) else None
             | _ \<Rightarrow> None)
          else if 224 \<le> b0 \<and> b0 \<le> 239 then
            (case r0 of
               b1 # b2 # r2 \<Rightarrow>
                 if is_cont b1 \<and> is_cont b2
                    \<and> (if b0 = 224 then 160 \<le> b1 else True)
                    \<and> (if b0 = 237 then b1 \<le> 159 else True)
                 then Some ((b0 - 224) * 4096 + (b1 - 128) * 64 + (b2 - 128), r2)
                 else None
             | _ \<Rightarrow> None)
          else if 240 \<le> b0 \<and> b0 \<le> 244 then
            (case r0 of
               b1 # b2 # b3 # r3 \<Rightarrow>
                 if is_cont b1 \<and> is_cont b2 \<and> is_cont b3
                    \<and> (if b0 = 240 then 144 \<le> b1 else True)
                    \<and> (if b0 = 244 then b1 \<le> 143 else True)
                 then Some ((b0 - 240) * 262144 + (b1 - 128) * 4096 + (b2 - 128) * 64 + (b3 - 128), r3)
                 else None
             | _ \<Rightarrow> None)
          else None)"

lemma utf8_char_shorter: "utf8_char bs = Some (cp, r) \<Longrightarrow> length r < length bs"
  by (auto simp: utf8_char_def split: list.splits if_splits)

function utf8_decode :: "nat list \<Rightarrow> py_error + nat list" where
  "utf8_decode bs =
     (if bs = [] then Inr []
      else (case utf8_char bs of
              None \<Rightarrow> Inl UnicodeDecodeError
            | Some (cp, r) \<Rightarrow>
                (case utf8_decode r of Inl e \<Rightarrow> Inl e | Inr cps \<Rightarrow> Inr (cp # cps))))"
  by pat_completeness auto
termination
  by (relation "measure length") (auto dest: utf8_char_shorter)

declare utf8_decode.simps [simp del]

text \<open>
  What \<open>json.load\<close> returns. The JSON parser itself is not part of the program: it is a
  parameter \<open>loads\<close>, from the decoded text to a value, with \<open>None\<close> where
  \<open>json.loads\<close> raises JSONDecodeError.
\<close>

datatype json =
  JNull | JBool bool | JInt int | JFloat real | JString string
  | JArray "json list" | JObject "(string \<times> json) list"

text \<open>
  \<open>load_data\<close>: \<open>{}\<close> when the file does not exist, and when the parser raises
  JSONDecodeError, the only exception the \<open>except\<close> clause of line 35 catches.
\<close>

definition load_data ::
  "(nat list \<Rightarrow> json option) \<Rightarrow> (string \<rightharpoonup> string) \<Rightarrow> string \<Rightarrow> py_error + json" where
  "load_data loads files file =
     (case files file of
        None \<Rightarrow> Inr (JObject [])
      | Some content \<Rightarrow>
          (case utf8_decode (map of_char content) of
             Inl e \<Rightarrow> Inl e
           | Inr txt \<Rightarrow>
               (case loads txt of
                  None \<Rightarrow> Inr (JObject [])
                | Some v \<Rightarrow> Inr v)))"

section \<open>Notions used in the statements\<close>

text \<open>The sum over the lines of a cart of unit price times quantity.\<close>

definition line_sum :: "cart \<Rightarrow> real" where
  "line_sum c = (\<Sum>item\<leftarrow>c. price item * of_int (quantity item))"

text \<open>The messages of the driver page and of the rating form, and an order with its ratings set.\<close>

definition claimed_notice :: "string \<Rightarrow> notice" where
  "claimed_notice k =
     St_success (''Order '' @ k @ '' claimed! It has been moved to 'Your Claimed Orders'.'')"

definition thanks :: notice where
  "thanks = St_success ''Thank you for your feedback!''"

definition rated :: "order \<Rightarrow> int \<Rightarrow> int \<Rightarrow> int \<Rightarrow> order" where
  "rated od rf rsp rsv =
     od\<lparr>rating_food := Some rf, rating_speed := Some rsp, rating_service := Some rsv\<rparr>"

text \<open>
  The summary of a restaurant or of a driver as \<open>setdefault\<close> (lines 328 and 334) finds
  it: the stored one, or the one with zeros that is created on first use.
\<close>

definition rest_summary :: "ratings \<Rightarrow> string \<Rightarrow> rest_rating" where
  "rest_summary rt name =
     (case restaurants rt name of None \<Rightarrow> \<lparr>rating_sum = 0, rating_count = 0\<rparr> | Some r \<Rightarrow> r)"

definition driver_summary :: "ratings \<Rightarrow> string \<Rightarrow> driver_rating" where
  "driver_summary rt name =
     (case drivers rt name of
        None \<Rightarrow> \<lparr>rating_sum = 0, rating_count = 0, speed_sum = 0, service_sum = 0\<rparr>
      | Some d \<Rightarrow> d)"

text \<open>
  The value of a string of digits, read from the left with a start value; the current
  maximum of the numeric IDs of a store (0 for the empty store); and the next \<open>n\<close> IDs
  after it.
\<close>

definition digits_val :: "nat \<Rightarrow> string \<Rightarrow> nat" where
  "digits_val acc cs = foldl (\<lambda>a c. 10 * a + digit_val c) acc cs"

definition max_id :: "int list \<Rightarrow> int" where
  "max_id ids = (if ids = [] then 0 else Max (set ids))"

definition new_ids :: "int list \<Rightarrow> nat \<Rightarrow> int list" where
  "new_ids ids n = [max_id ids + 1..max_id ids + int n]"

section \<open>Example inputs\<close>

definition sels3 :: "selection list" where
  "sels3 = [(''Pizza Place'', ''Pizza'', ''Margherita'', 12),
            (''Sushi Bar'', ''Drinks'', ''Sake'', 8),
            (''Pizza Place'', ''Pizza'', ''Margherita'', 12)]"

definition cart2 :: cart where
  "cart2 = [\<lparr>restaurant = ''Pizza Place'', category = ''Pizza'', food = ''Margherita'', price = 12, quantity = 2\<rparr>,
            \<lparr>restaurant = ''Sushi Bar'', category = ''Drinks'', food = ''Sake'', price = 8, quantity = 1\<rparr>]"

definition o1 :: order where
  "o1 = new_order ''alice'' ''0123456789'' ''KL'' ''Cash'' 2
         \<lparr>restaurant = ''Pizza Place'', category = ''Pizza'', food = ''Margherita'', price = 12, quantity = 2\<rparr>"

definition ratings2 :: ratings where
  "ratings2 = \<lparr>restaurants = [''Pizza Place'' \<mapsto> \<lparr>rating_sum = 6, rating_count = 2\<rparr>,
                               ''Sushi Bar'' \<mapsto> \<lparr>rating_sum = 0, rating_count = 0\<rparr>],
               drivers = [''bob'' \<mapsto> \<lparr>rating_sum = 9, rating_count = 2, speed_sum = 8, service_sum = 7\<rparr>,
                          ''carl'' \<mapsto> \<lparr>rating_sum = 0, rating_count = 0, speed_sum = 0, service_sum = 0\<rparr>]\<rparr>"

definition store10 :: orders where
  "store10 = [(''9'', o1), (''10'', o1)]"

definition o1_claimed :: order where
  "o1_claimed = o1\<lparr>driver := Some ''bob'', status := ''claimed''\<rparr>"

definition o1_completed :: order where
  "o1_completed = o1_claimed\<lparr>status := ''completed''\<rparr>"

definition o1_rated :: order where
  "o1_rated = o1_completed\<lparr>rating_food := Some 5, rating_speed := Some 4, rating_service := Some 3\<rparr>"

definition o2_completed :: order where
  "o2_completed = o1\<lparr>status := ''completed''\<rparr>"

definition no_ratings :: ratings where
  "no_ratings = \<lparr>restaurants = Map.empty, drivers = Map.empty\<rparr>"

definition ratings1 :: ratings where
  "ratings1 = \<lparr>restaurants = [''Pizza Place'' \<mapsto> \<lparr>rating_sum = 5, rating_count = 1\<rparr>],
               drivers = [''bob'' \<mapsto> \<lparr>rating_sum = 5, rating_count = 1, speed_sum = 4, service_sum = 3\<rparr>]\<rparr>"

definition users1 :: "string \<rightharpoonup> user" where
  "users1 = [''alice'' \<mapsto> \<lparr>password = ''$2b$12$hash'', user_phone = ''0123456789'', role = ''Customer''\<rparr>]"

definition order11 :: order where
  "order11 = new_order ''alice'' ''0123456789'' ''KL'' ''Cash'' 2
     \<lparr>restaurant = ''Pizza Place'', category = ''Pizza'', food = ''Margherita'', price = 12, quantity = 2\<rparr>"

definition order12 :: order where
  "order12 = new_order ''alice'' ''0123456789'' ''KL'' ''Cash'' 2
     \<lparr>restaurant = ''Sushi Bar'', category = ''Drinks'', food = ''Sake'', price = 8, quantity = 1\<rparr>"

section \<open>Properties of the cart\<close>

lemma bump_existing_found:
  "snd (bump_existing c fd rs) = ((rs, fd) \<in> set (map line_key c))"
  by (induction c) (auto simp: line_key_def split: prod.splits)

lemma bump_existing_keys:
  "map line_key (fst (bump_existing c fd rs)) = map line_key c"
  by (induction c) (auto simp: line_key_def split: prod.splits)

lemma bump_existing_length:
  "length (fst (bump_existing c fd rs)) = length c"
  by (induction c) (auto split: prod.splits)

lemma bump_existing_absent:
  "(rs, fd) \<notin> set (map line_key c) \<Longrightarrow> fst (bump_existing c fd rs) = c"
  by (induction c) (auto simp: line_key_def split: prod.splits)

lemma bump_existing_qty:
  "qty_of (fst (bump_existing c fd rs)) k =
     qty_of c k + (if k = (rs, fd) \<and> k \<in> set (map line_key c) then 1 else 0)"
  by (induction c) (auto simp: line_key_def qty_of_def split: prod.splits)

lemma bump_existing_distinct:
  "distinct (map line_key c) \<Longrightarrow> fst (bump_existing c fd rs) = map (bump_line (rs, fd)) c"
proof (induction c)
  case Nil
  then show ?case by simp
next
  case (Cons item rest)
  show ?case
  proof (cases "line_key item = (rs, fd)")
    case True
    with Cons.prems have "\<forall>l \<in> set rest. line_key l \<noteq> (rs, fd)" by force
    then have "map (bump_line (rs, fd)) rest = rest"
      by (simp add: bump_line_def map_idI)
    then have r: "map (bump_line (rs, fd)) rest = rest" .
    from True have 1: "fst (bump_existing (item # rest) fd rs) =
        item\<lparr>quantity := quantity item + 1\<rparr> # rest"
      by (simp add: line_key_def)
    from True have 2: "bump_line (rs, fd) item = item\<lparr>quantity := quantity item + 1\<rparr>"
      by (simp add: bump_line_def)
    show ?thesis by (simp only: 1 2 r list.map)
  next
    case False
    with Cons show ?thesis by (auto simp: line_key_def bump_line_def split: prod.splits)
  qed
qed

lemma add_to_cart_keys:
  "map line_key (add_to_cart c rs cat fd pr) =
     (if (rs, fd) \<in> set (map line_key c) then map line_key c else map line_key c @ [(rs, fd)])"
  using bump_existing_found [of c fd rs] bump_existing_keys [of c fd rs]
  by (auto simp: add_to_cart_def line_key_def split: prod.splits)

lemma add_to_cart_qty:
  "qty_of (add_to_cart c rs cat fd pr) k = qty_of c k + (if k = (rs, fd) then 1 else 0)"
  using bump_existing_found [of c fd rs] bump_existing_qty [of c fd rs k]
  by (auto simp: add_to_cart_def qty_of_def line_key_def split: prod.splits)

lemma add_to_cart_present:
  "(rs, fd) \<in> set (map line_key c) \<Longrightarrow> distinct (map line_key c) \<Longrightarrow>
     add_to_cart c rs cat fd pr = map (bump_line (rs, fd)) c"
  using bump_existing_found [of c fd rs] bump_existing_distinct [of c fd rs]
  by (auto simp: add_to_cart_def split: prod.splits)

lemma add_to_cart_absent:
  "(rs, fd) \<notin> set (map line_key c) \<Longrightarrow>
     add_to_cart c rs cat fd pr =
       c @ [\<lparr>restaurant = rs, category = cat, food = fd, price = pr, quantity = 1\<rparr>]"
  using bump_existing_found [of c fd rs] bump_existing_absent [of rs fd c]
  by (auto simp: add_to_cart_def split: prod.splits)

lemma add_to_cart_distinct:
  "distinct (map line_key c) \<Longrightarrow> distinct (map line_key (add_to_cart c rs cat fd pr))"
  by (simp add: add_to_cart_keys)

lemma add_all_distinct:
  "distinct (map line_key c) \<Longrightarrow> distinct (map line_key (add_all c sels))"
  unfolding add_all_def
  by (induction sels arbitrary: c) (auto simp: add_selection_def add_to_cart_distinct split: prod.splits)

lemma add_all_keys:
  "set (map line_key (add_all c sels)) = set (map line_key c) \<union> set (map sel_key sels)"
  unfolding add_all_def
proof (induction sels arbitrary: c)
  case Nil
  then show ?case by simp
next
  case (Cons s sels)
  obtain rs cat fd pr where s: "s = (rs, cat, fd, pr)" by (cases s) auto
  have "set (map line_key (add_selection c s)) = insert (rs, fd) (set (map line_key c))"
    by (auto simp: s add_selection_def add_to_cart_keys)
  with Cons.IH [of "add_selection c s"] show ?case
    by (simp add: s sel_key_def)
qed

lemma add_all_qty:
  "qty_of (add_all c sels) k = qty_of c k + int (count_list (map sel_key sels) k)"
  unfolding add_all_def
proof (induction sels arbitrary: c)
  case Nil
  then show ?case by simp
next
  case (Cons s sels)
  obtain rs cat fd pr where s: "s = (rs, cat, fd, pr)" by (cases s) auto
  have "qty_of (add_selection c s) k = qty_of c k + (if k = (rs, fd) then 1 else 0)"
    by (simp add: s add_selection_def add_to_cart_qty)
  with Cons.IH [of "add_selection c s"] show ?case
    by (auto simp: s sel_key_def)
qed

lemma qty_of_absent: "k \<notin> set (map line_key c) \<Longrightarrow> qty_of c k = 0"
  by (induction c) (auto simp: qty_of_def)

lemma qty_of_distinct:
  "distinct (map line_key c) \<Longrightarrow> l \<in> set c \<Longrightarrow> qty_of c (line_key l) = quantity l"
proof (induction c)
  case Nil
  then show ?case by simp
next
  case (Cons a c)
  note none = qty_of_absent [of "line_key a" c]
  show ?case
  proof (cases "l = a")
    case True
    with Cons.prems none show ?thesis by (simp add: qty_of_def)
  next
    case False
    with Cons.prems have lc: "l \<in> set c" by simp
    then have "line_key l \<in> set (map line_key c)" by simp
    moreover from Cons.prems have "line_key a \<notin> set (map line_key c)" by simp
    ultimately have ne: "line_key a \<noteq> line_key l" by metis
    from Cons.prems have "distinct (map line_key c)" by simp
    from Cons.IH [OF this lc] ne show ?thesis by (simp add: qty_of_def)
  qed
qed

text \<open>
  C7. Start with the empty cart and click "Add to Cart" any number of times. The cart
  then has one line for each pair of restaurant and food that was added and no two lines
  with the same pair, and the quantity of a line is the number of clicks made for its
  pair. One more click for a pair that is in the cart adds 1 to the quantity of its line
  and appends nothing; a click for a new pair appends a line with quantity 1.
  \<open>add_to_cart\<close> is a total function with no error among its results: it always
  succeeds.
\<close>

theorem add_item_one_line_per_pair:
  "distinct (map line_key (add_all [] sels)) \<and>
   set (map line_key (add_all [] sels)) = set (map sel_key sels) \<and>
   (\<forall>l \<in> set (add_all [] sels).
      quantity l = int (count_list (map sel_key sels) (line_key l))) \<and>
   (\<forall>rs cat fd pr. (rs, fd) \<in> set (map sel_key sels) \<longrightarrow>
      add_to_cart (add_all [] sels) rs cat fd pr = map (bump_line (rs, fd)) (add_all [] sels)) \<and>
   (\<forall>rs cat fd pr. (rs, fd) \<notin> set (map sel_key sels) \<longrightarrow>
      add_to_cart (add_all [] sels) rs cat fd pr =
        add_all [] sels @ [\<lparr>restaurant = rs, category = cat, food = fd, price = pr, quantity = 1\<rparr>])"
proof -
  have d: "distinct (map line_key (add_all [] sels))"
    by (rule add_all_distinct) simp
  have k: "set (map line_key (add_all [] sels)) = set (map sel_key sels)"
    using add_all_keys [of "[]" sels] by simp
  have q: "\<forall>l \<in> set (add_all [] sels).
      quantity l = int (count_list (map sel_key sels) (line_key l))"
  proof
    fix l assume "l \<in> set (add_all [] sels)"
    from qty_of_distinct [OF d this] add_all_qty [of "[]" sels "line_key l"]
    show "quantity l = int (count_list (map sel_key sels) (line_key l))"
      by (simp add: qty_of_def)
  qed
  have p: "\<forall>rs cat fd pr. (rs, fd) \<in> set (map sel_key sels) \<longrightarrow>
      add_to_cart (add_all [] sels) rs cat fd pr = map (bump_line (rs, fd)) (add_all [] sels)"
    using add_to_cart_present [OF _ d] k by blast
  have a: "\<forall>rs cat fd pr. (rs, fd) \<notin> set (map sel_key sels) \<longrightarrow>
      add_to_cart (add_all [] sels) rs cat fd pr =
        add_all [] sels @ [\<lparr>restaurant = rs, category = cat, food = fd, price = pr, quantity = 1\<rparr>]"
    using add_to_cart_absent k by blast
  from d k q p a show ?thesis by blast
qed

theorem add_item_one_line_per_pair_witness:
  "add_all [] sels3 =
     [\<lparr>restaurant = ''Pizza Place'', category = ''Pizza'', food = ''Margherita'', price = 12, quantity = 2\<rparr>,
      \<lparr>restaurant = ''Sushi Bar'', category = ''Drinks'', food = ''Sake'', price = 8, quantity = 1\<rparr>] \<and>
   distinct (map line_key (add_all [] sels3)) \<and>
   set (map line_key (add_all [] sels3)) =
     {(''Pizza Place'', ''Margherita''), (''Sushi Bar'', ''Sake'')} \<and>
   quantity (hd (add_all [] sels3)) =
     int (count_list (map sel_key sels3) (''Pizza Place'', ''Margherita'')) \<and>
   add_to_cart (add_all [] sels3) ''Sushi Bar'' ''Drinks'' ''Sake'' 8 =
     map (bump_line (''Sushi Bar'', ''Sake'')) (add_all [] sels3) \<and>
   add_to_cart (add_all [] sels3) ''Sushi Bar'' ''Drinks'' ''Green Tea'' 3 =
     add_all [] sels3 @
       [\<lparr>restaurant = ''Sushi Bar'', category = ''Drinks'', food = ''Green Tea'', price = 3, quantity = 1\<rparr>]"
proof -
  note t = add_item_one_line_per_pair [of sels3]
  have c: "add_all [] sels3 =
     [\<lparr>restaurant = ''Pizza Place'', category = ''Pizza'', food = ''Margherita'', price = 12, quantity = 2\<rparr>,
      \<lparr>restaurant = ''Sushi Bar'', category = ''Drinks'', food = ''Sake'', price = 8, quantity = 1\<rparr>]"
    by (simp add: sels3_def add_all_def add_selection_def add_to_cart_def)
  have ks: "set (map sel_key sels3) = {(''Pizza Place'', ''Margherita''), (''Sushi Bar'', ''Sake'')}"
    by (auto simp: sels3_def sel_key_def)
  have h: "hd (add_all [] sels3) \<in> set (add_all [] sels3)"
    by (simp add: c)
  have hk: "line_key (hd (add_all [] sels3)) = (''Pizza Place'', ''Margherita'')"
    by (simp add: c line_key_def)
  from t have 1: "distinct (map line_key (add_all [] sels3))" by blast
  from t have "set (map line_key (add_all [] sels3)) = set (map sel_key sels3)" by blast
  then have 2: "set (map line_key (add_all [] sels3)) =
      {(''Pizza Place'', ''Margherita''), (''Sushi Bar'', ''Sake'')}" unfolding ks .
  from t h have "quantity (hd (add_all [] sels3)) =
      int (count_list (map sel_key sels3) (line_key (hd (add_all [] sels3))))" by blast
  with hk have 3: "quantity (hd (add_all [] sels3)) =
      int (count_list (map sel_key sels3) (''Pizza Place'', ''Margherita''))" by simp
  have "(''Sushi Bar'', ''Sake'') \<in> set (map sel_key sels3)" unfolding ks by simp
  with t have 4: "add_to_cart (add_all [] sels3) ''Sushi Bar'' ''Drinks'' ''Sake'' 8 =
      map (bump_line (''Sushi Bar'', ''Sake'')) (add_all [] sels3)" by blast
  have "(''Sushi Bar'', ''Green Tea'') \<notin> set (map sel_key sels3)" unfolding ks by simp
  with t have 5: "add_to_cart (add_all [] sels3) ''Sushi Bar'' ''Drinks'' ''Green Tea'' 3 =
      add_all [] sels3 @
       [\<lparr>restaurant = ''Sushi Bar'', category = ''Drinks'', food = ''Green Tea'', price = 3, quantity = 1\<rparr>]"
    by blast
  from c 1 2 3 4 5 show ?thesis by blast
qed

subsection \<open>The totals\<close>

lemma sum_enumerate:
  "(\<Sum>(i, item)\<leftarrow>enumerate n c. f item) = (\<Sum>item\<leftarrow>c. f item)"
  by (induction c arbitrary: n) auto

lemma cart_loop_no_click:
  "cart_loop xs c No_click s = Done (s + (\<Sum>(i, item)\<leftarrow>xs. price item * of_int (quantity item)))"
  by (induction xs arbitrary: s) (auto simp: algebra_simps)

lemma cart_loop_done:
  "cart_loop xs c click s = Done r \<Longrightarrow>
     r = s + (\<Sum>(i, item)\<leftarrow>xs. price item * of_int (quantity item))"
proof (induction xs arbitrary: s)
  case Nil
  then show ?case by simp
next
  case (Cons x xs)
  obtain idx item where x: "x = (idx, item)" by (cases x)
  from Cons.prems have "cart_loop xs c click (s + price item * of_int (quantity item)) = Done r"
    by (simp add: x split: if_splits)
  from Cons.IH [OF this] show ?case by (simp add: x)
qed

text \<open>
  C6. For every cart, the totals of lines 217-243 are: the subtotal, the sum over all
  lines of unit price times quantity; the service tax, the subtotal times 0.10; the
  delivery charge, the subtotal times 0.06; the total, the sum of the three. With no
  button down the loop always reaches the totals, and whenever it reaches them, whatever
  button is down, the cart is the one it started with. Amounts are real numbers here: the
  rounding of Python's float operations is left out.
\<close>

theorem cart_totals_formula:
  "cart_totals c No_click =
     Done (c, \<lparr>subtotal = line_sum c,
               service_tax = line_sum c * 0.10,
               delivery_charge = line_sum c * 0.06,
               total = line_sum c + line_sum c * 0.10 + line_sum c * 0.06\<rparr>) \<and>
   (cart_totals c click = Done (c', t) \<longrightarrow>
      c' = c \<and>
      subtotal t = line_sum c \<and>
      service_tax t = subtotal t * 0.10 \<and>
      delivery_charge t = subtotal t * 0.06 \<and>
      total t = subtotal t + service_tax t + delivery_charge t)"
proof (rule conjI)
  show "cart_totals c No_click =
     Done (c, \<lparr>subtotal = line_sum c,
               service_tax = line_sum c * 0.10,
               delivery_charge = line_sum c * 0.06,
               total = line_sum c + line_sum c * 0.10 + line_sum c * 0.06\<rparr>)"
    by (simp add: cart_totals_def cart_loop_no_click sum_enumerate line_sum_def)
next
  show "cart_totals c click = Done (c', t) \<longrightarrow>
      c' = c \<and>
      subtotal t = line_sum c \<and>
      service_tax t = subtotal t * 0.10 \<and>
      delivery_charge t = subtotal t * 0.06 \<and>
      total t = subtotal t + service_tax t + delivery_charge t"
  proof
    assume a: "cart_totals c click = Done (c', t)"
    then obtain sub where l: "cart_loop (enumerate 0 c) c click 0 = Done sub"
      by (auto simp: cart_totals_def split: run.splits)
    from cart_loop_done [OF l] have s: "sub = line_sum c"
      by (simp add: sum_enumerate line_sum_def)
    from a l have "c' = c" and "t = \<lparr>subtotal = sub, service_tax = sub * 0.10,
        delivery_charge = sub * 0.06, total = sub + sub * 0.10 + sub * 0.06\<rparr>"
      by (simp_all add: cart_totals_def)
    with s show "c' = c \<and>
      subtotal t = line_sum c \<and>
      service_tax t = subtotal t * 0.10 \<and>
      delivery_charge t = subtotal t * 0.06 \<and>
      total t = subtotal t + service_tax t + delivery_charge t" by simp
  qed
qed

lemma line_sum_cart2: "line_sum cart2 = 32"
  by (simp add: line_sum_def cart2_def)

lemma cart_totals_minus: "cart_totals cart2 (Minus 1) =
    Done (cart2, \<lparr>subtotal = 32, service_tax = 3.2, delivery_charge = 1.92, total = 37.12\<rparr>)"
  by (simp add: cart_totals_def cart2_def enumerate_eq_zip upt_rec)

theorem cart_totals_formula_witness:
  "cart_totals cart2 No_click =
     Done (cart2, \<lparr>subtotal = 32, service_tax = 3.2, delivery_charge = 1.92, total = 37.12\<rparr>) \<and>
   cart_totals cart2 (Minus 1) =
     Done (cart2, \<lparr>subtotal = 32, service_tax = 3.2, delivery_charge = 1.92, total = 37.12\<rparr>) \<and>
   line_sum cart2 = 12 * 2 + 8 * 1"
proof -
  note t = cart_totals_formula [of cart2 "Minus 1" cart2
      "\<lparr>subtotal = 32, service_tax = 3.2, delivery_charge = 1.92, total = 37.12\<rparr>"]
  from t have "cart_totals cart2 No_click =
     Done (cart2, \<lparr>subtotal = line_sum cart2,
               service_tax = line_sum cart2 * 0.10,
               delivery_charge = line_sum cart2 * 0.06,
               total = line_sum cart2 + line_sum cart2 * 0.10 + line_sum cart2 * 0.06\<rparr>)"
    by blast
  then have 1: "cart_totals cart2 No_click =
     Done (cart2, \<lparr>subtotal = 32, service_tax = 3.2, delivery_charge = 1.92, total = 37.12\<rparr>)"
    by (simp add: line_sum_cart2)
  from t cart_totals_minus have "line_sum cart2 = 32" by simp
  with 1 cart_totals_minus show ?thesis by simp
qed

section \<open>Average ratings\<close>

text \<open>
  C9. The average shown for a restaurant is its rating sum divided by its rating count
  when the count is above 0, and the three averages shown for a driver are the three sums
  divided by the one count. When the count is 0, or when there is no summary, no average
  is computed and none is shown. The division never raises ZeroDivisionError. The quotient
  is the real one; Python shows its nearest float, rounded to two decimals.
\<close>

theorem average_guarded:
  "(restaurants rt name = None \<longrightarrow> restaurant_average rt name = Inr None) \<and>
   (restaurants rt name = Some r \<and> rating_count r > 0 \<longrightarrow>
      restaurant_average rt name = Inr (Some (of_int (rating_sum r) / of_int (rating_count r)))) \<and>
   (restaurants rt name = Some r \<and> rating_count r = 0 \<longrightarrow>
      restaurant_average rt name = Inr None) \<and>
   restaurant_average rt name \<noteq> Inl ZeroDivisionError \<and>
   (drivers rt dname = None \<longrightarrow> driver_averages rt dname = Inr None) \<and>
   (drivers rt dname = Some d \<and> rating_count d > 0 \<longrightarrow>
      driver_averages rt dname =
        Inr (Some (of_int (rating_sum d) / of_int (rating_count d),
                   of_int (speed_sum d) / of_int (rating_count d),
                   of_int (service_sum d) / of_int (rating_count d)))) \<and>
   (drivers rt dname = Some d \<and> rating_count d = 0 \<longrightarrow>
      driver_averages rt dname = Inr None) \<and>
   driver_averages rt dname \<noteq> Inl ZeroDivisionError"
proof -
  have r1: "restaurants rt name = None \<longrightarrow> restaurant_average rt name = Inr None"
    by (simp add: restaurant_average_def)
  have r2: "restaurants rt name = Some r \<and> rating_count r > 0 \<longrightarrow>
      restaurant_average rt name = Inr (Some (of_int (rating_sum r) / of_int (rating_count r)))"
    by (simp add: restaurant_average_def py_truediv_def)
  have r3: "restaurants rt name = Some r \<and> rating_count r = 0 \<longrightarrow>
      restaurant_average rt name = Inr None"
    by (simp add: restaurant_average_def)
  have r4: "restaurant_average rt name \<noteq> Inl ZeroDivisionError"
    by (simp add: restaurant_average_def py_truediv_def split: option.splits)
  have d1: "drivers rt dname = None \<longrightarrow> driver_averages rt dname = Inr None"
    by (simp add: driver_averages_def)
  have d2: "drivers rt dname = Some d \<and> rating_count d > 0 \<longrightarrow>
      driver_averages rt dname =
        Inr (Some (of_int (rating_sum d) / of_int (rating_count d),
                   of_int (speed_sum d) / of_int (rating_count d),
                   of_int (service_sum d) / of_int (rating_count d)))"
    by (simp add: driver_averages_def py_truediv_def)
  have d3: "drivers rt dname = Some d \<and> rating_count d = 0 \<longrightarrow>
      driver_averages rt dname = Inr None"
    by (simp add: driver_averages_def)
  have d4: "driver_averages rt dname \<noteq> Inl ZeroDivisionError"
    by (simp add: driver_averages_def py_truediv_def split: option.splits)
  from r1 r2 r3 r4 d1 d2 d3 d4 show ?thesis by blast
qed

theorem average_guarded_witness:
  "restaurant_average ratings2 ''Pizza Place'' = Inr (Some 3) \<and>
   restaurant_average ratings2 ''Sushi Bar'' = Inr None \<and>
   restaurant_average ratings2 ''The Hungry Coder'' = Inr None \<and>
   driver_averages ratings2 ''bob'' = Inr (Some (9 / 2, 4, 7 / 2)) \<and>
   driver_averages ratings2 ''carl'' = Inr None \<and>
   driver_averages ratings2 ''dave'' = Inr None"
proof -
  have 1: "restaurant_average ratings2 ''Pizza Place'' = Inr (Some 3)"
    using average_guarded [of ratings2 "''Pizza Place''" "\<lparr>rating_sum = 6, rating_count = 2\<rparr>"]
    by (simp add: ratings2_def)
  have 2: "restaurant_average ratings2 ''Sushi Bar'' = Inr None"
    using average_guarded [of ratings2 "''Sushi Bar''" "\<lparr>rating_sum = 0, rating_count = 0\<rparr>"]
    by (simp add: ratings2_def)
  have 3: "restaurant_average ratings2 ''The Hungry Coder'' = Inr None"
    using average_guarded [of ratings2 "''The Hungry Coder''"]
    by (simp add: ratings2_def)
  have 4: "driver_averages ratings2 ''bob'' = Inr (Some (9 / 2, 4, 7 / 2))"
    using average_guarded [of ratings2 _ _ "''bob''"
        "\<lparr>rating_sum = 9, rating_count = 2, speed_sum = 8, service_sum = 7\<rparr>"]
    by (simp add: ratings2_def)
  have 5: "driver_averages ratings2 ''carl'' = Inr None"
    using average_guarded [of ratings2 _ _ "''carl''"
        "\<lparr>rating_sum = 0, rating_count = 0, speed_sum = 0, service_sum = 0\<rparr>"]
    by (simp add: ratings2_def)
  have 6: "driver_averages ratings2 ''dave'' = Inr None"
    using average_guarded [of ratings2 _ _ "''dave''"]
    by (simp add: ratings2_def)
  from 1 2 3 4 5 6 show ?thesis by blast
qed

section \<open>The list of a customer's orders\<close>

text \<open>
  What line 304 does: it lists the orders of the customer, each once, by descending order
  ID, where the IDs are compared as strings.
\<close>

lemma listed_orders_set:
  "set (listed_orders os u) = {(k, od). (k, od) \<in> set os \<and> customer od = u}"
  by (auto simp: listed_orders_def sorted_reverse_def user_orders_def)

lemma listed_orders_descending:
  "sorted (rev (map fst (listed_orders os u)))"
  by (simp add: listed_orders_def sorted_reverse_def rev_map)

text \<open>
  C2. Listing a customer's orders returns the orders whose customer field matches,
  ordered by descending numeric order ID. The code compares the IDs as strings: with the
  orders 9 and 10 of one customer in the store it lists 9 first and 10 second, which is
  ascending in the numbers.
\<close>

theorem listed_orders_string_order:
  "map fst (listed_orders store10 ''alice'') = [''9'', ''10''] \<and>
   map (py_int \<circ> fst) (listed_orders store10 ''alice'') = [Inr 9, Inr 10]"
  by (simp add: listed_orders_def user_orders_def sorted_reverse_def store10_def o1_def new_order_def
      py_int_def int_literal_def strip_def is_space_def is_digit_def digit_val_def)

section \<open>Loading a store\<close>

lemma utf8_decode_ff: "utf8_decode [255] = Inl UnicodeDecodeError"
  by (simp add: utf8_decode.simps utf8_char_def)

lemma load_data_absent: "files file = None \<Longrightarrow> load_data loads files file = Inr (JObject [])"
  by (simp add: load_data_def)

lemma load_data_not_json:
  "files file = Some content \<Longrightarrow> utf8_decode (map of_char content) = Inr txt \<Longrightarrow>
     loads txt = None \<Longrightarrow> load_data loads files file = Inr (JObject [])"
  by (simp add: load_data_def)

lemma utf8_decode_error: "utf8_decode bs = Inl e \<Longrightarrow> e = UnicodeDecodeError"
proof (induction bs arbitrary: e rule: utf8_decode.induct)
  case (1 bs)
  show ?case
  proof (cases "bs = []")
    case True
    with "1.prems" show ?thesis by (simp add: utf8_decode.simps)
  next
    case False
    show ?thesis
    proof (cases "utf8_char bs")
      case None
      with False "1.prems" show ?thesis by (simp add: utf8_decode.simps [of bs])
    next
      case (Some p)
      obtain cp r where p: "p = (cp, r)" by (cases p)
      from False Some p "1.prems" have "utf8_decode r = Inl e"
        by (simp add: utf8_decode.simps [of bs] split: sum.splits)
      from "1.IH" [OF False Some p [symmetric] this] show ?thesis .
    qed
  qed
qed

lemma load_data_raises_only_decode:
  "load_data loads files file = Inl e \<Longrightarrow> e = UnicodeDecodeError"
  by (auto simp: load_data_def split: option.splits sum.splits dest: utf8_decode_error)

text \<open>
  C8. Loading returns the empty dictionary when the file is absent and when its content
  is no JSON (the two lemmas \<open>load_data_absent\<close> and \<open>load_data_not_json\<close>), and
  it should never raise for invalid content. A file whose content is the one byte FF is
  no UTF-8 text: reading it raises UnicodeDecodeError, which line 35 does not catch, so
  \<open>load_data\<close> raises it to its caller.
\<close>

theorem load_data_invalid_utf8:
  "load_data loads [''orders.json'' \<mapsto> [CHR 0xFF]] ''orders.json'' = Inl UnicodeDecodeError"
  by (simp add: load_data_def utf8_decode_ff)

section \<open>Dictionaries\<close>

lemma map_of_dict_set: "map_of (dict_set d k v) = (map_of d)(k \<mapsto> v)"
  by (induction d) (auto simp: fun_eq_iff)

lemma dict_get_dict_set: "dict_get (dict_set d k v) k' = (if k' = k then Some v else dict_get d k')"
  by (simp add: dict_get_def map_of_dict_set)

lemma keys_dict_set:
  "map fst (dict_set d k v) = (if k \<in> set (map fst d) then map fst d else map fst d @ [k])"
proof (induction d)
  case Nil
  then show ?case by simp
next
  case (Cons a d)
  obtain k' v' where a: "a = (k', v')" by (cases a)
  show ?case
  proof (cases "k' = k")
    case True
    then show ?thesis by (simp add: a)
  next
    case False
    with Cons.IH show ?thesis by (simp add: a)
  qed
qed

lemma keys_dict_set_present:
  "k \<in> set (map fst d) \<Longrightarrow> map fst (dict_set d k v) = map fst d"
  by (simp only: keys_dict_set if_True)

lemma dict_set_absent: "k \<notin> set (map fst d) \<Longrightarrow> dict_set d k v = d @ [(k, v)]"
  by (induction d) auto

lemma dict_get_keys: "dict_get d k = Some v \<Longrightarrow> k \<in> set (map fst d)"
  unfolding dict_get_def by (metis map_of_eq_None_iff option.distinct(1) set_map)

lemma map_of_filter_distinct:
  "distinct (map fst d) \<Longrightarrow>
     map_of (filter (\<lambda>(k, v). P v) d) k =
       (case map_of d k of None \<Rightarrow> None | Some v \<Rightarrow> if P v then Some v else None)"
proof (induction d)
  case Nil
  then show ?case by simp
next
  case (Cons a d)
  obtain k' v' where a: "a = (k', v')" by (cases a)
  from Cons.prems have nk: "map_of d k' = None"
    by (simp add: a map_of_eq_None_iff)
  from Cons.prems have "distinct (map fst d)" by simp
  note ih = Cons.IH [OF this]
  show ?case
  proof (cases "k = k'")
    case True
    with nk ih show ?thesis by (simp add: a)
  next
    case False
    with ih show ?thesis by (simp add: a)
  qed
qed

section \<open>Claiming an order\<close>

text \<open>
  With distinct keys, the click on "Claim Order" and the click on "Mark Order as
  Completed" do what a lookup of the order says: they act on an order that is in the list
  the button is drawn for, and do nothing otherwise.
\<close>

lemma deliver_loop_other: "deliver_loop xs os (Claim k) = None"
  by (induction xs) auto

lemma deliver_loop_nothing: "deliver_loop xs os Nothing = None"
  by (induction xs) auto

lemma claim_loop_lookup:
  "claim_loop xs os u (Claim k) =
     (case map_of xs k of
        None \<Rightarrow> None
      | Some od \<Rightarrow>
          Some (dict_set os k (od\<lparr>driver := Some u, status := ''claimed''\<rparr>),
                [St_success (''Order '' @ k @ '' claimed! It has been moved to 'Your Claimed Orders'.'')]))"
  by (induction xs) auto

lemma deliver_loop_lookup:
  "deliver_loop xs os (Deliver k) =
     (case map_of xs k of
        None \<Rightarrow> None
      | Some od \<Rightarrow>
          Some (dict_set os k (od\<lparr>status := ''completed''\<rparr>),
                [St_success (''Order '' @ k @ '' marked as completed!'')]))"
  by (induction xs) auto

lemma claim_loop_deliver: "claim_loop xs os u (Deliver k) = None"
  by (induction xs) auto

lemma driver_page_claim:
  assumes "distinct (map fst os)"
  shows "driver_page os u (Claim k) =
     (case dict_get os k of
        None \<Rightarrow> (os, [])
      | Some od \<Rightarrow>
          if status od = ''pending''
          then (dict_set os k (od\<lparr>driver := Some u, status := ''claimed''\<rparr>),
                [St_success (''Order '' @ k @ '' claimed! It has been moved to 'Your Claimed Orders'.'')])
          else (os, []))"
  using map_of_filter_distinct [OF assms, of "\<lambda>od. status od = ''pending''" k]
  by (simp add: driver_page_def deliver_loop_other claim_loop_lookup pending_orders_def dict_get_def
      split: option.splits)

lemma driver_page_deliver:
  assumes "distinct (map fst os)"
  shows "driver_page os u (Deliver k) =
     (case dict_get os k of
        None \<Rightarrow> (os, [])
      | Some od \<Rightarrow>
          if driver od = Some u \<and> status od = ''claimed''
          then (dict_set os k (od\<lparr>status := ''completed''\<rparr>),
                [St_success (''Order '' @ k @ '' marked as completed!'')])
          else (os, []))"
  using map_of_filter_distinct [OF assms, of "\<lambda>od. driver od = Some u \<and> status od = ''claimed''" k]
  by (simp add: driver_page_def deliver_loop_lookup claim_loop_deliver driver_orders_def dict_get_def
      split: option.splits)

text \<open>
  C3, as the code has it. Claiming an order whose status is pending sets its driver to
  the given driver and its status to claimed. Claiming an order whose status is not
  pending leaves the store unchanged, and nothing is shown: the page draws no claim button
  for such an order, and no error is raised or reported. So a second claim of the same
  order, by any driver, changes nothing.
\<close>

theorem claim_order_pending_only:
  assumes "distinct (map fst os)" and "dict_get os k = Some od"
  shows "(status od = ''pending'' \<longrightarrow>
            driver_page os u (Claim k) =
              (dict_set os k (od\<lparr>driver := Some u, status := ''claimed''\<rparr>), [claimed_notice k]) \<and>
            dict_get (fst (driver_page os u (Claim k))) k =
              Some (od\<lparr>driver := Some u, status := ''claimed''\<rparr>) \<and>
            driver_page (fst (driver_page os u (Claim k))) u' (Claim k) =
              (fst (driver_page os u (Claim k)), [])) \<and>
         (status od \<noteq> ''pending'' \<longrightarrow> driver_page os u (Claim k) = (os, []))"
proof (intro conjI impI)
  assume p: "status od = ''pending''"
  let ?os1 = "dict_set os k (od\<lparr>driver := Some u, status := ''claimed''\<rparr>)"
  from assms p show 1: "driver_page os u (Claim k) = (?os1, [claimed_notice k])"
    by (simp add: driver_page_claim claimed_notice_def)
  show "dict_get (fst (driver_page os u (Claim k))) k =
      Some (od\<lparr>driver := Some u, status := ''claimed''\<rparr>)"
    by (simp add: 1 dict_get_dict_set)
  from dict_get_keys [OF assms(2)] have "k \<in> set (map fst os)" .
  then have "map fst ?os1 = map fst os"
    by (rule keys_dict_set_present)
  with assms have "distinct (map fst ?os1)" by simp
  then show "driver_page (fst (driver_page os u (Claim k))) u' (Claim k) =
      (fst (driver_page os u (Claim k)), [])"
    by (simp add: 1 driver_page_claim dict_get_dict_set)
next
  assume "status od \<noteq> ''pending''"
  with assms show "driver_page os u (Claim k) = (os, [])"
    by (simp add: driver_page_claim)
qed

theorem claim_order_pending_only_witness:
  "driver_page [(''1'', o1)] ''bob'' (Claim ''1'') = ([(''1'', o1_claimed)], [claimed_notice ''1'']) \<and>
   dict_get (fst (driver_page [(''1'', o1)] ''bob'' (Claim ''1''))) ''1'' = Some o1_claimed \<and>
   driver_page (fst (driver_page [(''1'', o1)] ''bob'' (Claim ''1''))) ''carl'' (Claim ''1'') =
     (fst (driver_page [(''1'', o1)] ''bob'' (Claim ''1'')), []) \<and>
   driver_page [(''1'', o1_completed)] ''carl'' (Claim ''1'') = ([(''1'', o1_completed)], [])"
proof -
  have p: "status o1 = ''pending''" by (simp add: o1_def new_order_def)
  have e: "o1\<lparr>driver := Some ''bob'', status := ''claimed''\<rparr> = o1_claimed"
    by (simp add: o1_claimed_def)
  have c: "status o1_completed \<noteq> ''pending''"
    by (simp add: o1_completed_def)
  have a: "distinct (map fst [(''1'', o1)])" "dict_get [(''1'', o1)] ''1'' = Some o1"
    by (simp_all add: dict_get_def)
  have b: "distinct (map fst [(''1'', o1_completed)])"
    "dict_get [(''1'', o1_completed)] ''1'' = Some o1_completed"
    by (simp_all add: dict_get_def)
  have s: "dict_set [(''1'', o1)] ''1'' o1_claimed = [(''1'', o1_claimed)]"
    by simp
  from claim_order_pending_only [OF a, of "''bob''" "''carl''"] p
  have "driver_page [(''1'', o1)] ''bob'' (Claim ''1'') =
     (dict_set [(''1'', o1)] ''1'' (o1\<lparr>driver := Some ''bob'', status := ''claimed''\<rparr>),
      [claimed_notice ''1'']) \<and>
   dict_get (fst (driver_page [(''1'', o1)] ''bob'' (Claim ''1''))) ''1'' =
     Some (o1\<lparr>driver := Some ''bob'', status := ''claimed''\<rparr>) \<and>
   driver_page (fst (driver_page [(''1'', o1)] ''bob'' (Claim ''1''))) ''carl'' (Claim ''1'') =
     (fst (driver_page [(''1'', o1)] ''bob'' (Claim ''1'')), [])"
    by blast
  then have 1: "driver_page [(''1'', o1)] ''bob'' (Claim ''1'') = ([(''1'', o1_claimed)], [claimed_notice ''1'']) \<and>
   dict_get (fst (driver_page [(''1'', o1)] ''bob'' (Claim ''1''))) ''1'' = Some o1_claimed \<and>
   driver_page (fst (driver_page [(''1'', o1)] ''bob'' (Claim ''1''))) ''carl'' (Claim ''1'') =
     (fst (driver_page [(''1'', o1)] ''bob'' (Claim ''1'')), [])"
    unfolding e s .
  from claim_order_pending_only [OF b, of "''carl''"] c
  have 2: "driver_page [(''1'', o1_completed)] ''carl'' (Claim ''1'') = ([(''1'', o1_completed)], [])"
    by blast
  from 1 2 show ?thesis by blast
qed

text \<open>
  C3 as stated says that a claim of an order that is not pending fails with
  InvalidStateError. The order 1 here is claimed by bob; a claim of it by carl returns
  the store as it was and an empty list of messages, not an error.
\<close>

theorem claim_of_claimed_order_is_silent:
  "driver_page [(''1'', o1_claimed)] ''carl'' (Claim ''1'') = ([(''1'', o1_claimed)], [])"
  by (simp add: driver_page_def driver_orders_def pending_orders_def o1_claimed_def)

section \<open>Rating an order\<close>

lemma rating_loop_lookup:
  "distinct (map fst xs) \<Longrightarrow>
     rating_loop xs os rt k rf rsp rsv =
       (case map_of xs k of
          None \<Rightarrow> (os, rt, [])
        | Some od \<Rightarrow>
            if status od = ''completed'' \<and> rating_food od = None
            then (case submit_rating os rt k od rf rsp rsv of
                    (os', rt') \<Rightarrow> (os', rt', [St_success ''Thank you for your feedback!'']))
            else (os, rt, []))"
proof (induction xs)
  case Nil
  then show ?case by simp
next
  case (Cons a xs)
  obtain k' v' where a: "a = (k', v')" by (cases a)
  from Cons.prems have nk: "map_of xs k' = None"
    by (simp add: a map_of_eq_None_iff)
  from Cons.prems have "distinct (map fst xs)" by simp
  note ih = Cons.IH [OF this]
  show ?case
  proof (cases "k = k'")
    case True
    with nk ih show ?thesis by (simp add: a)
  next
    case False
    with ih show ?thesis by (simp add: a)
  qed
qed

lemma listed_orders_distinct:
  "distinct (map fst os) \<Longrightarrow> distinct (map fst (listed_orders os u))"
  by (simp add: listed_orders_def sorted_reverse_def user_orders_def distinct_map inj_on_def
      rev_map [symmetric]) 

lemma listed_orders_lookup:
  assumes "distinct (map fst os)"
  shows "map_of (listed_orders os u) k =
     (case map_of os k of None \<Rightarrow> None | Some od \<Rightarrow> if customer od = u then Some od else None)"
proof -
  have d1: "distinct (map fst (listed_orders os u))"
    using assms by (rule listed_orders_distinct)
  have d2: "distinct (map fst (user_orders os u))"
    using assms by (simp add: user_orders_def distinct_map_filter)
  have "set (listed_orders os u) = set (user_orders os u)"
    by (auto simp: listed_orders_set user_orders_def)
  with d1 d2 have "map_of (listed_orders os u) = map_of (user_orders os u)"
    by (simp add: map_of_inject_set)
  then show ?thesis
    using map_of_filter_distinct [OF assms, of "\<lambda>od. customer od = u" k]
    by (simp add: user_orders_def)
qed

lemma rate_order_lookup:
  assumes "distinct (map fst os)"
  shows "rate_order os rt u k rf rsp rsv =
     (case dict_get os k of
        None \<Rightarrow> (os, rt, [])
      | Some od \<Rightarrow>
          if customer od = u \<and> status od = ''completed'' \<and> rating_food od = None
          then (fst (submit_rating os rt k od rf rsp rsv),
                snd (submit_rating os rt k od rf rsp rsv),
                [St_success ''Thank you for your feedback!''])
          else (os, rt, []))"
  by (simp add: rate_order_def rating_loop_lookup [OF listed_orders_distinct [OF assms]]
      listed_orders_lookup [OF assms] dict_get_def split: option.splits prod.splits)

lemma rest_rating_update:
  "(r :: rest_rating)\<lparr>rating_sum := a, rating_count := b\<rparr> = \<lparr>rating_sum = a, rating_count = b\<rparr>"
  by (cases r) simp

lemma driver_rating_update:
  "(d :: driver_rating)\<lparr>rating_sum := a, speed_sum := b, service_sum := c, rating_count := n\<rparr> =
     \<lparr>rating_sum = a, rating_count = n, speed_sum = b, service_sum = c\<rparr>"
  by (cases d) simp

lemma rate_restaurant_eq:
  "rate_restaurant (restaurants rt) name rf =
     (restaurants rt)(name \<mapsto>
        \<lparr>rating_sum = rating_sum (rest_summary rt name) + rf,
         rating_count = rating_count (rest_summary rt name) + 1\<rparr>)"
  by (simp add: rate_restaurant_def rest_summary_def Let_def rest_rating_update split: option.splits)

lemma rate_driver_eq:
  "rate_driver (drivers rt) name rf rsp rsv =
     (drivers rt)(name \<mapsto>
        \<lparr>rating_sum = rating_sum (driver_summary rt name) + rf,
         rating_count = rating_count (driver_summary rt name) + 1,
         speed_sum = speed_sum (driver_summary rt name) + rsp,
         service_sum = service_sum (driver_summary rt name) + rsv\<rparr>)"
  by (simp add: rate_driver_def driver_summary_def Let_def driver_rating_update split: option.splits)

lemma rate_order_ok:
  assumes "distinct (map fst os)" and "dict_get os k = Some od"
    and "customer od = u" and "status od = ''completed''" and "rating_food od = None"
  shows "rate_order os rt u k rf rsp rsv =
     (dict_set os k (rated od rf rsp rsv),
      \<lparr>restaurants = rate_restaurant (restaurants rt) (restaurant od) rf,
       drivers = (case driver od of
                    None \<Rightarrow> drivers rt
                  | Some d \<Rightarrow> if d = [] then drivers rt
                             else rate_driver (drivers rt) d rf rsp rsv)\<rparr>,
      [thanks])"
  using assms by (simp add: rate_order_lookup submit_rating_def rated_def thanks_def)

text \<open>
  C5. For an order of the customer that is completed and not yet rated, and three ratings
  between 1 and 5, "Submit Rating" writes the three ratings on the order, adds the food
  rating (only) to the sum of the order's restaurant and 1 to its count, and, when the
  order has a driver, adds the food, speed and service ratings to the three sums of the
  driver and 1 to the driver's one count; with no driver the drivers' summaries stay as
  they are. A summary that is not there yet starts from zero sums and a zero count.
\<close>

theorem submit_rating_updates:
  assumes "distinct (map fst os)" and "dict_get os k = Some od"
    and "customer od = u" and "status od = ''completed''" and "rating_food od = None"
    and "1 \<le> rf \<and> rf \<le> 5" and "1 \<le> rsp \<and> rsp \<le> 5" and "1 \<le> rsv \<and> rsv \<le> 5"
  shows "snd (snd (rate_order os rt u k rf rsp rsv)) = [thanks] \<and>
     fst (rate_order os rt u k rf rsp rsv) = dict_set os k (rated od rf rsp rsv) \<and>
     dict_get (fst (rate_order os rt u k rf rsp rsv)) k = Some (rated od rf rsp rsv) \<and>
     restaurants (fst (snd (rate_order os rt u k rf rsp rsv))) =
       (restaurants rt)(restaurant od \<mapsto>
          \<lparr>rating_sum = rating_sum (rest_summary rt (restaurant od)) + rf,
           rating_count = rating_count (rest_summary rt (restaurant od)) + 1\<rparr>) \<and>
     (\<forall>d. driver od = Some d \<and> d \<noteq> [] \<longrightarrow>
        drivers (fst (snd (rate_order os rt u k rf rsp rsv))) =
          (drivers rt)(d \<mapsto>
             \<lparr>rating_sum = rating_sum (driver_summary rt d) + rf,
              rating_count = rating_count (driver_summary rt d) + 1,
              speed_sum = speed_sum (driver_summary rt d) + rsp,
              service_sum = service_sum (driver_summary rt d) + rsv\<rparr>)) \<and>
     (driver od = None \<longrightarrow> drivers (fst (snd (rate_order os rt u k rf rsp rsv))) = drivers rt)"
proof -
  note r = rate_order_ok [OF assms(1-5), of rt rf rsp rsv]
  have 1: "snd (snd (rate_order os rt u k rf rsp rsv)) = [thanks]"
    by (simp add: r)
  have 2: "fst (rate_order os rt u k rf rsp rsv) = dict_set os k (rated od rf rsp rsv)"
    by (simp add: r)
  have 3: "dict_get (fst (rate_order os rt u k rf rsp rsv)) k = Some (rated od rf rsp rsv)"
    by (simp add: 2 dict_get_dict_set)
  have 4: "restaurants (fst (snd (rate_order os rt u k rf rsp rsv))) =
       (restaurants rt)(restaurant od \<mapsto>
          \<lparr>rating_sum = rating_sum (rest_summary rt (restaurant od)) + rf,
           rating_count = rating_count (rest_summary rt (restaurant od)) + 1\<rparr>)"
    by (simp add: r rate_restaurant_eq)
  have 5: "\<forall>d. driver od = Some d \<and> d \<noteq> [] \<longrightarrow>
        drivers (fst (snd (rate_order os rt u k rf rsp rsv))) =
          (drivers rt)(d \<mapsto>
             \<lparr>rating_sum = rating_sum (driver_summary rt d) + rf,
              rating_count = rating_count (driver_summary rt d) + 1,
              speed_sum = speed_sum (driver_summary rt d) + rsp,
              service_sum = service_sum (driver_summary rt d) + rsv\<rparr>)"
    by (simp add: r rate_driver_eq)
  have 6: "driver od = None \<longrightarrow> drivers (fst (snd (rate_order os rt u k rf rsp rsv))) = drivers rt"
    by (simp add: r)
  from 1 2 3 4 5 6 show ?thesis by blast
qed

lemma o1_rated_eq: "rated o1_completed 5 4 3 = o1_rated"
  by (simp add: rated_def o1_rated_def)

theorem submit_rating_updates_witness:
  "snd (snd (rate_order [(''1'', o1_completed)] no_ratings ''alice'' ''1'' 5 4 3)) = [thanks] \<and>
   fst (rate_order [(''1'', o1_completed)] no_ratings ''alice'' ''1'' 5 4 3) = [(''1'', o1_rated)] \<and>
   restaurants (fst (snd (rate_order [(''1'', o1_completed)] no_ratings ''alice'' ''1'' 5 4 3))) =
     [''Pizza Place'' \<mapsto> \<lparr>rating_sum = 5, rating_count = 1\<rparr>] \<and>
   drivers (fst (snd (rate_order [(''1'', o1_completed)] no_ratings ''alice'' ''1'' 5 4 3))) =
     [''bob'' \<mapsto> \<lparr>rating_sum = 5, rating_count = 1, speed_sum = 4, service_sum = 3\<rparr>] \<and>
   drivers (fst (snd (rate_order [(''1'', o2_completed)] no_ratings ''alice'' ''1'' 5 4 3))) = Map.empty"
proof -
  have a: "distinct (map fst [(''1'', o1_completed)])"
    "dict_get [(''1'', o1_completed)] ''1'' = Some o1_completed"
    "customer o1_completed = ''alice''" "status o1_completed = ''completed''"
    "rating_food o1_completed = None"
    by (simp_all add: dict_get_def o1_completed_def o1_claimed_def o1_def new_order_def)
  have b: "distinct (map fst [(''1'', o2_completed)])"
    "dict_get [(''1'', o2_completed)] ''1'' = Some o2_completed"
    "customer o2_completed = ''alice''" "status o2_completed = ''completed''"
    "rating_food o2_completed = None"
    by (simp_all add: dict_get_def o2_completed_def o1_def new_order_def)
  have r: "(1::int) \<le> 5 \<and> (5::int) \<le> 5" "(1::int) \<le> 4 \<and> (4::int) \<le> 5" "(1::int) \<le> 3 \<and> (3::int) \<le> 5"
    by simp_all
  have f: "restaurant o1_completed = ''Pizza Place''" "driver o1_completed = Some ''bob''"
    "driver o2_completed = None"
    by (simp_all add: o1_completed_def o1_claimed_def o2_completed_def o1_def new_order_def)
  have z: "rest_summary no_ratings ''Pizza Place'' = \<lparr>rating_sum = 0, rating_count = 0\<rparr>"
    "driver_summary no_ratings ''bob'' =
       \<lparr>rating_sum = 0, rating_count = 0, speed_sum = 0, service_sum = 0\<rparr>"
    "restaurants no_ratings = Map.empty" "drivers no_ratings = Map.empty"
    by (simp_all add: rest_summary_def driver_summary_def no_ratings_def)
  note t1 = submit_rating_updates [OF a r, of no_ratings]
  note t2 = submit_rating_updates [OF b r, of no_ratings]
  from t1 have 1: "snd (snd (rate_order [(''1'', o1_completed)] no_ratings ''alice'' ''1'' 5 4 3)) = [thanks]"
    by blast
  from t1 have "fst (rate_order [(''1'', o1_completed)] no_ratings ''alice'' ''1'' 5 4 3) =
      dict_set [(''1'', o1_completed)] ''1'' (rated o1_completed 5 4 3)"
    by blast
  then have 2: "fst (rate_order [(''1'', o1_completed)] no_ratings ''alice'' ''1'' 5 4 3) = [(''1'', o1_rated)]"
    by (simp add: o1_rated_eq)
  from t1 have "restaurants (fst (snd (rate_order [(''1'', o1_completed)] no_ratings ''alice'' ''1'' 5 4 3))) =
       (restaurants no_ratings)(restaurant o1_completed \<mapsto>
          \<lparr>rating_sum = rating_sum (rest_summary no_ratings (restaurant o1_completed)) + 5,
           rating_count = rating_count (rest_summary no_ratings (restaurant o1_completed)) + 1\<rparr>)"
    by blast
  then have 3: "restaurants (fst (snd (rate_order [(''1'', o1_completed)] no_ratings ''alice'' ''1'' 5 4 3))) =
     [''Pizza Place'' \<mapsto> \<lparr>rating_sum = 5, rating_count = 1\<rparr>]"
    by (simp add: f z)
  from t1 f have "drivers (fst (snd (rate_order [(''1'', o1_completed)] no_ratings ''alice'' ''1'' 5 4 3))) =
          (drivers no_ratings)(''bob'' \<mapsto>
             \<lparr>rating_sum = rating_sum (driver_summary no_ratings ''bob'') + 5,
              rating_count = rating_count (driver_summary no_ratings ''bob'') + 1,
              speed_sum = speed_sum (driver_summary no_ratings ''bob'') + 4,
              service_sum = service_sum (driver_summary no_ratings ''bob'') + 3\<rparr>)"
    by blast
  then have 4: "drivers (fst (snd (rate_order [(''1'', o1_completed)] no_ratings ''alice'' ''1'' 5 4 3))) =
     [''bob'' \<mapsto> \<lparr>rating_sum = 5, rating_count = 1, speed_sum = 4, service_sum = 3\<rparr>]"
    by (simp add: z)
  from t2 f have "drivers (fst (snd (rate_order [(''1'', o2_completed)] no_ratings ''alice'' ''1'' 5 4 3))) =
      drivers no_ratings"
    by blast
  then have 5: "drivers (fst (snd (rate_order [(''1'', o2_completed)] no_ratings ''alice'' ''1'' 5 4 3))) = Map.empty"
    by (simp add: z)
  from 1 2 3 4 5 show ?thesis by blast
qed

text \<open>
  C4, as the code has it. Rating is write-once: after one successful "Submit Rating" the
  order holds the submitted ratings, and a second submit for the same order, with any
  values, leaves the orders and both kinds of summaries unchanged and shows nothing (the
  form is not drawn for a rated order; no error is raised or reported). And a submit
  changes something only for an order of the customer whose status is completed and whose
  food rating is absent.
\<close>

theorem rating_write_once:
  assumes "distinct (map fst os)"
  shows "(dict_get os k = Some od \<and> customer od = u \<and> status od = ''completed'' \<and>
          rating_food od = None \<longrightarrow>
            snd (snd (rate_order os rt u k rf rsp rsv)) = [thanks] \<and>
            dict_get (fst (rate_order os rt u k rf rsp rsv)) k = Some (rated od rf rsp rsv) \<and>
            rate_order (fst (rate_order os rt u k rf rsp rsv))
                (fst (snd (rate_order os rt u k rf rsp rsv))) u k rf2 rsp2 rsv2 =
              (fst (rate_order os rt u k rf rsp rsv),
               fst (snd (rate_order os rt u k rf rsp rsv)), [])) \<and>
         (rate_order os rt u k rf rsp rsv \<noteq> (os, rt, []) \<longrightarrow>
            (\<exists>od'. dict_get os k = Some od' \<and> customer od' = u \<and> status od' = ''completed'' \<and>
                   rating_food od' = None))"
proof (intro conjI impI)
  assume h: "dict_get os k = Some od \<and> customer od = u \<and> status od = ''completed'' \<and>
          rating_food od = None"
  then have g: "dict_get os k = Some od" and c: "customer od = u"
    and s: "status od = ''completed''" and n: "rating_food od = None"
    by simp_all
  note r = rate_order_ok [OF assms g c s n, of rt rf rsp rsv]
  let ?os1 = "dict_set os k (rated od rf rsp rsv)"
  show "snd (snd (rate_order os rt u k rf rsp rsv)) = [thanks]"
    by (simp add: r)
  show "dict_get (fst (rate_order os rt u k rf rsp rsv)) k = Some (rated od rf rsp rsv)"
    by (simp add: r dict_get_dict_set)
  from dict_get_keys [OF g] have "k \<in> set (map fst os)" .
  then have "map fst ?os1 = map fst os"
    by (rule keys_dict_set_present)
  with assms have d1: "distinct (map fst ?os1)" by simp
  have "rating_food (rated od rf rsp rsv) \<noteq> None"
    by (simp add: rated_def)
  then have "rate_order ?os1 rt' u k rf2 rsp2 rsv2 = (?os1, rt', [])" for rt'
    by (simp add: rate_order_lookup [OF d1] dict_get_dict_set)
  then show "rate_order (fst (rate_order os rt u k rf rsp rsv))
                (fst (snd (rate_order os rt u k rf rsp rsv))) u k rf2 rsp2 rsv2 =
              (fst (rate_order os rt u k rf rsp rsv),
               fst (snd (rate_order os rt u k rf rsp rsv)), [])"
    by (simp add: r)
next
  assume "rate_order os rt u k rf rsp rsv \<noteq> (os, rt, [])"
  then show "\<exists>od'. dict_get os k = Some od' \<and> customer od' = u \<and> status od' = ''completed'' \<and>
                   rating_food od' = None"
    by (simp add: rate_order_lookup [OF assms] split: option.splits if_splits)
qed

lemma first_rating_result:
  "rate_order [(''1'', o1_completed)] no_ratings ''alice'' ''1'' 5 4 3 =
     ([(''1'', o1_rated)], ratings1, [thanks])"
  by (simp add: rate_order_def listed_orders_def user_orders_def sorted_reverse_def
      submit_rating_def rate_restaurant_def rate_driver_def thanks_def no_ratings_def ratings1_def
      o1_rated_def o1_completed_def o1_claimed_def o1_def new_order_def)

theorem rating_write_once_witness:
  "rate_order [(''1'', o1_completed)] no_ratings ''alice'' ''1'' 5 4 3 =
     ([(''1'', o1_rated)], ratings1, [thanks]) \<and>
   dict_get [(''1'', o1_rated)] ''1'' = Some (rated o1_completed 5 4 3) \<and>
   rate_order [(''1'', o1_rated)] ratings1 ''alice'' ''1'' 1 2 3 = ([(''1'', o1_rated)], ratings1, []) \<and>
   (\<exists>od'. dict_get [(''1'', o1_completed)] ''1'' = Some od' \<and> customer od' = ''alice'' \<and>
          status od' = ''completed'' \<and> rating_food od' = None)"
proof -
  have d: "distinct (map fst [(''1'', o1_completed)])" by simp
  have h: "dict_get [(''1'', o1_completed)] ''1'' = Some o1_completed \<and>
      customer o1_completed = ''alice'' \<and> status o1_completed = ''completed'' \<and>
      rating_food o1_completed = None"
    by (simp add: dict_get_def o1_completed_def o1_claimed_def o1_def new_order_def)
  have n: "rate_order [(''1'', o1_completed)] no_ratings ''alice'' ''1'' 5 4 3 \<noteq>
      ([(''1'', o1_completed)], no_ratings, [])"
    by (simp add: first_rating_result)
  note t = rating_write_once [OF d, of "''1''" o1_completed "''alice''" no_ratings 5 4 3 1 2 3]
  from t h have
    "dict_get (fst (rate_order [(''1'', o1_completed)] no_ratings ''alice'' ''1'' 5 4 3)) ''1'' =
       Some (rated o1_completed 5 4 3) \<and>
     rate_order (fst (rate_order [(''1'', o1_completed)] no_ratings ''alice'' ''1'' 5 4 3))
         (fst (snd (rate_order [(''1'', o1_completed)] no_ratings ''alice'' ''1'' 5 4 3)))
         ''alice'' ''1'' 1 2 3 =
       (fst (rate_order [(''1'', o1_completed)] no_ratings ''alice'' ''1'' 5 4 3),
        fst (snd (rate_order [(''1'', o1_completed)] no_ratings ''alice'' ''1'' 5 4 3)), [])"
    by blast
  then have 1: "dict_get [(''1'', o1_rated)] ''1'' = Some (rated o1_completed 5 4 3) \<and>
      rate_order [(''1'', o1_rated)] ratings1 ''alice'' ''1'' 1 2 3 = ([(''1'', o1_rated)], ratings1, [])"
    by (simp add: first_rating_result)
  from t n have 2: "\<exists>od'. dict_get [(''1'', o1_completed)] ''1'' = Some od' \<and> customer od' = ''alice'' \<and>
          status od' = ''completed'' \<and> rating_food od' = None"
    by blast
  from first_rating_result 1 2 show ?thesis by blast
qed

text \<open>
  C4 as stated says that the second submit fails with InvalidStateError. The order 1 here
  is rated; a second submit returns the orders and the summaries as they were and an empty
  list of messages, not an error.
\<close>

theorem second_rating_is_silent:
  "rate_order [(''1'', o1_rated)] ratings1 ''alice'' ''1'' 1 1 1 = ([(''1'', o1_rated)], ratings1, [])"
  by (simp add: rate_order_def listed_orders_def user_orders_def sorted_reverse_def
      o1_rated_def o1_completed_def o1_claimed_def o1_def new_order_def)

section \<open>Order IDs as strings\<close>

text \<open>\<open>int(str(i))\<close> is \<open>i\<close> for every integer, so \<open>str\<close> is injective.\<close>

lemma of_char_digit_char: "d < 10 \<Longrightarrow> (of_char (digit_char d) :: nat) = 48 + d"
  by (simp add: digit_char_def)

lemma is_digit_digit_char: "d < 10 \<Longrightarrow> is_digit (digit_char d)"
  by (simp add: is_digit_def of_char_digit_char)

lemma digit_val_digit_char: "d < 10 \<Longrightarrow> digit_val (digit_char d) = d"
  by (simp add: digit_val_def of_char_digit_char)

lemma is_digit_not_space: "is_digit c \<Longrightarrow> \<not> is_space c"
  by (auto simp: is_digit_def is_space_def)

lemma is_digit_not_sign:
  "is_digit c \<Longrightarrow> c \<noteq> CHR ''_'' \<and> c \<noteq> CHR ''-'' \<and> c \<noteq> CHR ''+''"
  by (auto simp: is_digit_def)

lemma str_nat_digits: "c \<in> set (str_nat n) \<Longrightarrow> is_digit c"
proof (induction n arbitrary: c rule: str_nat.induct)
  case (1 n)
  show ?case
  proof (cases "n < 10")
    case True
    with "1.prems" show ?thesis
      by (simp add: str_nat.simps [of n] is_digit_digit_char)
  next
    case False
    with "1.prems" have "c \<in> set (str_nat (n div 10)) \<or> c = digit_char (n mod 10)"
      by (auto simp: str_nat.simps [of n])
    with "1.IH" [OF False] show ?thesis
      by (auto simp: is_digit_digit_char)
  qed
qed

lemma str_nat_not_Nil: "str_nat n \<noteq> []"
  by (simp add: str_nat.simps [of n])

lemma parse_rest_digits:
  "\<forall>c \<in> set cs. is_digit c \<Longrightarrow> parse_rest cs acc = Some (digits_val acc cs)"
proof (induction cs arbitrary: acc)
  case Nil
  then show ?case by (simp add: digits_val_def)
next
  case (Cons c cs)
  then have d: "is_digit c" and r: "\<forall>c \<in> set cs. is_digit c" by simp_all
  from d have u: "c \<noteq> CHR ''_''" using is_digit_not_sign by blast
  from Cons.IH [OF r, of "10 * acc + digit_val c"] d u show ?case
    by (simp add: digits_val_def)
qed

lemma parse_digits_digits:
  "cs \<noteq> [] \<Longrightarrow> \<forall>c \<in> set cs. is_digit c \<Longrightarrow> parse_digits cs acc = Some (digits_val acc cs)"
  by (cases cs) (auto simp: parse_rest_digits digits_val_def)

lemma digits_val_str_nat: "digits_val 0 (str_nat n) = n"
proof (induction n rule: str_nat.induct)
  case (1 n)
  show ?case
  proof (cases "n < 10")
    case True
    then show ?thesis
      by (simp add: str_nat.simps [of n] digits_val_def digit_val_digit_char)
  next
    case False
    from "1.IH" [OF False] have "digits_val 0 (str_nat (n div 10)) = n div 10" .
    with False show ?thesis
      by (simp add: str_nat.simps [of n] digits_val_def digit_val_digit_char)
  qed
qed

lemma parse_digits_str_nat: "parse_digits (str_nat n) 0 = Some n"
proof -
  have "\<forall>c \<in> set (str_nat n). is_digit c"
    by (blast intro: str_nat_digits)
  from parse_digits_digits [OF str_nat_not_Nil this, of 0] show ?thesis
    by (simp only: digits_val_str_nat)
qed

lemma strip_id:
  assumes "s \<noteq> []" and "\<not> is_space (hd s)" and "\<not> is_space (last s)"
  shows "strip s = s"
proof -
  from assms(1,2) have 1: "dropWhile is_space s = s"
    by (cases s) auto
  from assms(1) have "hd (rev s) = last s" by (simp add: hd_rev)
  with assms(3) have "\<not> is_space (hd (rev s))" by simp
  moreover from assms(1) have "rev s \<noteq> []" by simp
  ultimately have 2: "dropWhile is_space (rev s) = rev s"
    by (cases "rev s") simp_all
  show ?thesis by (simp add: strip_def 1 2)
qed

lemma str_nat_ends: "is_digit (hd (str_nat n)) \<and> is_digit (last (str_nat n))"
proof -
  have "hd (str_nat n) \<in> set (str_nat n)" "last (str_nat n) \<in> set (str_nat n)"
    using str_nat_not_Nil [of n] by simp_all
  then show ?thesis by (blast intro: str_nat_digits)
qed

lemma strip_py_str: "strip (py_str i) = py_str i"
proof (rule strip_id)
  show "py_str i \<noteq> []" by (simp add: py_str_def str_nat_not_Nil)
  have m: "\<not> is_space CHR ''-''" by (simp add: is_space_def)
  from str_nat_ends [of "nat i"] have "\<not> is_space (hd (str_nat (nat i)))"
    by (blast dest: is_digit_not_space)
  with m show "\<not> is_space (hd (py_str i))"
    by (simp add: py_str_def)
  from str_nat_ends have l: "\<not> is_space (last (str_nat k))" for k
    by (blast dest: is_digit_not_space)
  show "\<not> is_space (last (py_str i))"
    by (simp add: py_str_def str_nat_not_Nil l)
qed

lemma int_literal_py_str: "int_literal (py_str i) = Some i"
proof (cases "i < 0")
  case True
  then have "py_str i = CHR ''-'' # str_nat (nat (- i))"
    by (simp add: py_str_def)
  with True strip_py_str [of i] show ?thesis
    by (simp add: int_literal_def parse_digits_str_nat)
next
  case False
  obtain c cs where s: "str_nat (nat i) = c # cs"
    using str_nat_not_Nil [of "nat i"] by (cases "str_nat (nat i)") auto
  with str_nat_ends [of "nat i"] have "is_digit c" by simp
  then have ns: "c \<noteq> CHR ''-''" "c \<noteq> CHR ''+''"
    using is_digit_not_sign by blast+
  from False have p: "py_str i = c # cs"
    by (simp add: py_str_def s)
  from parse_digits_str_nat [of "nat i"] have "parse_digits (c # cs) 0 = Some (nat i)"
    by (simp only: s)
  with False strip_py_str [of i] ns show ?thesis
    by (simp add: int_literal_def p)
qed

text \<open>
  The separators 28 to 31 are not stripped, so such a key is no integer; U+00A0 is
  stripped.
\<close>

lemma py_int_separator:
  "py_int [CHR 0x1C, CHR ''5''] = Inl ValueError \<and> py_int [CHR ''5'', CHR 0x1F] = Inl ValueError"
  by (simp add: py_int_def int_literal_def strip_def is_space_def is_digit_def)

lemma py_int_no_break_space: "py_int [CHR 0xA0, CHR ''5''] = Inr 5"
  by (simp add: py_int_def int_literal_def strip_def is_space_def is_digit_def digit_val_def)

lemma py_int_py_str: "py_int (py_str i) = Inr i"
  by (simp add: py_int_def int_literal_py_str)

lemma py_str_inj:
  assumes "py_str a = py_str b"
  shows "a = b"
proof -
  have "py_int (py_str a) = py_int (py_str b)"
    by (simp only: assms)
  then have "(Inr a :: py_error + int) = Inr b"
    by (simp only: py_int_py_str)
  then show ?thesis by simp
qed



lemma py_str_examples: "py_str 11 = ''11''" "py_str 12 = ''12''" "py_str 2 = ''2''"
  by code_simp+

section \<open>Checkout\<close>

text \<open>
  When every key of the store is an integer, the last ID is their maximum, no ID above
  it is a key of the store, and the loop of lines 273-284 appends one order for each line
  of the cart.
\<close>

lemma int_keys_map: "int_keys ks = Inr ids \<Longrightarrow> map py_int ks = map Inr ids"
proof (induction ks arbitrary: ids)
  case Nil
  then show ?case by simp
next
  case (Cons k ks)
  from Cons.prems obtain i js where i: "py_int k = Inr i" and js: "int_keys ks = Inr js"
    and ids: "ids = i # js"
    by (auto split: sum.splits)
  from Cons.IH [OF js] i ids show ?case by simp
qed

lemma py_max_Max:
  assumes "ids \<noteq> []"
  shows "py_max ids = Inr (Max (set ids))"
proof -
  from assms obtain x xs where ids: "ids = x # xs" by (cases ids) auto
  have "Max (set (x # xs)) = fold max xs x" by (rule Max.set_eq_fold)
  then show ?thesis by (simp only: ids py_max.simps)
qed

lemma last_order_id_eq:
  "int_keys (map fst os) = Inr ids \<Longrightarrow> last_order_id os = Inr (max_id ids)"
  by (simp add: last_order_id_def max_id_def py_max_Max)

lemma max_id_upper: "i \<in> set ids \<Longrightarrow> i \<le> max_id ids"
  by (auto simp: max_id_def)

lemma fresh_above_max:
  assumes "int_keys (map fst os) = Inr ids" and "max_id ids < j"
  shows "py_str j \<notin> set (map fst os)"
proof
  assume "py_str j \<in> set (map fst os)"
  then have "py_int (py_str j) \<in> py_int ` set (map fst os)"
    by (rule imageI)
  then have "py_int (py_str j) \<in> set (map py_int (map fst os))"
    by (simp only: set_map)
  then have "Inr j \<in> set (map Inr ids :: (py_error + int) list)"
    by (simp only: py_int_py_str int_keys_map [OF assms(1)])
  then have "j \<in> set ids" by auto
  from max_id_upper [OF this] assms(2) show False by simp
qed

lemma place_lines_append:
  "(\<And>j. n < j \<Longrightarrow> py_str j \<notin> set (map fst os)) \<Longrightarrow>
     place_lines mk c n os = os @ zip (map py_str [n + 1..n + int (length c)]) (map mk c)"
proof (induction c arbitrary: n os)
  case Nil
  then show ?case by simp
next
  case (Cons item rest)
  let ?os1 = "os @ [(py_str (n + 1), mk item)]"
  have "py_str (n + 1) \<notin> set (map fst os)"
    by (rule Cons.prems) simp
  then have s: "dict_set os (py_str (n + 1)) (mk item) = ?os1"
    by (rule dict_set_absent)
  have f: "py_str j \<notin> set (map fst ?os1)" if "n + 1 < j" for j
  proof -
    from that have "n < j" by simp
    from Cons.prems [OF this] have a: "py_str j \<notin> set (map fst os)" .
    from that have "j \<noteq> n + 1" by simp
    then have "py_str j \<noteq> py_str (n + 1)" by (blast dest: py_str_inj)
    with a show ?thesis by simp
  qed
  have "n + 1 \<le> n + 1 + int (length rest)" by simp
  from upto_rec1 [OF this]
  have "[n + 1..n + 1 + int (length rest)] = (n + 1) # [n + 1 + 1..n + 1 + int (length rest)]" .
  moreover have "n + int (length (item # rest)) = n + 1 + int (length rest)" by simp
  ultimately
  have u: "[n + 1..n + int (length (item # rest))] = (n + 1) # [n + 1 + 1..n + 1 + int (length rest)]"
    by (simp only:)
  from Cons.IH [of "n + 1" ?os1, OF f] show ?case
    by (simp only: place_lines.simps s u list.map zip_Cons_Cons append_assoc append_Cons append_Nil)
qed

lemma place_order_ok:
  assumes "dp \<noteq> []" and "users username = Some u" and "int_keys (map fst os) = Inr ids"
  shows "place_order users os c username dp pay tp =
     Inr (os @ zip (map py_str [max_id ids + 1..max_id ids + int (length c)])
                   (map (new_order username (user_phone u) dp pay tp) c),
          [], 1, St_success ''Order placed successfully!'')"
proof -
  have "place_lines (new_order username (user_phone u) dp pay tp) c (max_id ids) os =
      os @ zip (map py_str [max_id ids + 1..max_id ids + int (length c)])
               (map (new_order username (user_phone u) dp pay tp) c)"
    by (rule place_lines_append) (rule fresh_above_max [OF assms(3)])
  with assms show ?thesis
    by (simp add: place_order_def last_order_id_eq)
qed

lemma new_order_fields:
  "status (new_order un up dp pay tp item) = ''pending'' \<and>
   driver (new_order un up dp pay tp item) = None \<and>
   rating_food (new_order un up dp pay tp item) = None \<and>
   rating_speed (new_order un up dp pay tp item) = None \<and>
   rating_service (new_order un up dp pay tp item) = None \<and>
   restaurant (new_order un up dp pay tp item) = restaurant item \<and>
   category (new_order un up dp pay tp item) = category item \<and>
   food (new_order un up dp pay tp item) = food item \<and>
   price (new_order un up dp pay tp item) = price item \<and>
   quantity (new_order un up dp pay tp item) = quantity item \<and>
   customer (new_order un up dp pay tp item) = un \<and>
   phone (new_order un up dp pay tp item) = up \<and>
   dropoff (new_order un up dp pay tp item) = dp \<and>
   payment (new_order un up dp pay tp item) = pay \<and>
   tip (new_order un up dp pay tp item) = tp"
  by (simp add: new_order_def)






lemma int_keys_store10: "int_keys (map fst store10) = Inr [9, 10]"
  by (simp add: store10_def py_int_def int_literal_def strip_def is_space_def is_digit_def digit_val_def)

lemma new_ids_example: "new_ids [9, 10] 2 = [11, 12]" "new_ids [] 2 = [1, 2]"
  by (simp_all add: new_ids_def max_id_def upto_rec1)

lemma users1_alice:
  "users1 ''alice'' = Some \<lparr>password = ''$2b$12$hash'', user_phone = ''0123456789'', role = ''Customer''\<rparr>"
  by (simp add: users1_def)

lemma new_orders_cart2:
  "map (new_order ''alice'' ''0123456789'' ''KL'' ''Cash'' 2) cart2 = [order11, order12]"
  by (simp add: cart2_def order11_def order12_def)

lemma checkout_example:
  "place_order users1 store10 cart2 ''alice'' ''KL'' ''Cash'' 2 =
     Inr (store10 @ [(''11'', order11), (''12'', order12)], [], 1,
          St_success ''Order placed successfully!'')"
proof -
  have "(''KL'' :: string) \<noteq> []" by simp
  from place_order_ok [where users = users1 and username = "''alice''" and c = cart2
      and pay = "''Cash''" and tp = 2, OF this users1_alice int_keys_store10]
  have "place_order users1 store10 cart2 ''alice'' ''KL'' ''Cash'' 2 =
     Inr (store10 @ zip (map py_str (new_ids [9, 10] (length cart2)))
                        (map (new_order ''alice'' ''0123456789'' ''KL'' ''Cash'' 2) cart2),
          [], 1, St_success ''Order placed successfully!'')"
    by (simp add: new_ids_def)
  moreover have "length cart2 = 2" by (simp add: cart2_def)
  ultimately show ?thesis
    by (simp add: new_ids_example py_str_examples new_orders_cart2)
qed

text \<open>
  A key that is no integer makes line 271 raise ValueError: no order is created.
\<close>

lemma checkout_raises_on_bad_key:
  "place_order users1 [([CHR 0x1C, CHR ''5''], o1)] cart2 ''alice'' ''KL'' ''Cash'' 2 = Inl ValueError"
  by (simp add: place_order_def users1_def last_order_id_def py_int_def int_literal_def strip_def
      is_space_def is_digit_def)



text \<open>
  C10. A checkout of a cart with two or more lines leaves the old orders as they were
  and creates as many orders as the cart has lines; every one of them carries the same
  customer, phone, dropoff, payment and tip. The tip entered once is recorded in full on
  each created order: it is replicated, not split.
\<close>

theorem checkout_replicates_tip:
  assumes "2 \<le> length c" and "dp \<noteq> []" and "users username = Some u"
    and "int_keys (map fst os) = Inr ids"
    and "place_order users os c username dp pay tp = Inr (os', c', st, msg)"
  shows "take (length os) os' = os \<and>
     length (drop (length os) os') = length c \<and>
     (\<forall>(k, od) \<in> set (drop (length os) os').
        customer od = username \<and> phone od = user_phone u \<and> dropoff od = dp \<and>
        payment od = pay \<and> tip od = tp)"
proof -
  let ?new = "zip (map py_str [max_id ids + 1..max_id ids + int (length c)])
                  (map (new_order username (user_phone u) dp pay tp) c)"
  from place_order_ok [where users = users and username = username and c = c and pay = pay
      and tp = tp, OF assms(2-4)] assms(5)
  have os': "os' = os @ ?new"
    by simp
  have 1: "take (length os) os' = os" by (simp add: os')
  have d: "drop (length os) os' = ?new" by (simp add: os')
  have 2: "length (drop (length os) os') = length c" by (simp add: d)
  have 3: "\<forall>(k, od) \<in> set (drop (length os) os').
        customer od = username \<and> phone od = user_phone u \<and> dropoff od = dp \<and>
        payment od = pay \<and> tip od = tp"
  proof (clarify)
    fix k od assume "(k, od) \<in> set (drop (length os) os')"
    then have "od \<in> set (map (new_order username (user_phone u) dp pay tp) c)"
      unfolding d by (rule set_zip_rightD)
    then obtain item where "od = new_order username (user_phone u) dp pay tp item" by auto
    then show "customer od = username \<and> phone od = user_phone u \<and> dropoff od = dp \<and>
        payment od = pay \<and> tip od = tp"
      by (simp add: new_order_fields)
  qed
  from 1 2 3 show ?thesis by blast
qed

theorem checkout_replicates_tip_witness:
  "take (length store10) (store10 @ [(''11'', order11), (''12'', order12)]) = store10 \<and>
   length (drop (length store10) (store10 @ [(''11'', order11), (''12'', order12)])) = length cart2 \<and>
   customer order11 = ''alice'' \<and> phone order11 = ''0123456789'' \<and> dropoff order11 = ''KL'' \<and>
   payment order11 = ''Cash'' \<and> tip order11 = 2 \<and>
   customer order12 = ''alice'' \<and> phone order12 = ''0123456789'' \<and> dropoff order12 = ''KL'' \<and>
   payment order12 = ''Cash'' \<and> tip order12 = 2"
proof -
  have l: "2 \<le> length cart2" by (simp add: cart2_def)
  have d: "(''KL'' :: string) \<noteq> []" by simp
  note t = checkout_replicates_tip [where users = users1 and username = "''alice''",
      OF l d users1_alice int_keys_store10 checkout_example]
  have m: "(''11'', order11) \<in> set (drop (length store10) (store10 @ [(''11'', order11), (''12'', order12)]))"
    "(''12'', order12) \<in> set (drop (length store10) (store10 @ [(''11'', order11), (''12'', order12)]))"
    by simp_all
  from t have 1: "take (length store10) (store10 @ [(''11'', order11), (''12'', order12)]) = store10 \<and>
      length (drop (length store10) (store10 @ [(''11'', order11), (''12'', order12)])) = length cart2"
    by blast
  from t m(1) have 2: "customer order11 = ''alice'' \<and>
      phone order11 = user_phone \<lparr>password = ''$2b$12$hash'', user_phone = ''0123456789'', role = ''Customer''\<rparr> \<and>
      dropoff order11 = ''KL'' \<and> payment order11 = ''Cash'' \<and> tip order11 = 2"
    by blast
  from t m(2) have 3: "customer order12 = ''alice'' \<and>
      phone order12 = user_phone \<lparr>password = ''$2b$12$hash'', user_phone = ''0123456789'', role = ''Customer''\<rparr> \<and>
      dropoff order12 = ''KL'' \<and> payment order12 = ''Cash'' \<and> tip order12 = 2"
    by blast
  from 1 2 3 show ?thesis by simp
qed

end
